theory Spec2Isabelle
  imports Main "HOL-Library.Multiset"
begin

section \<open>Python strings, integers and exceptions\<close>

text \<open>
  A Python \<open>str\<close> is a sequence of Unicode code points and is modelled as a list of
  natural numbers; \<open>py\<close> turns a literal into such a list. What Python does on the ASCII
  range is written out below. For the code points from 128 on, \<open>isalpha\<close>, \<open>isspace\<close>,
  the decimal value of a digit, and the case mappings come from the Unicode tables of the
  interpreter, which are not part of the repository: the model takes them as a parameter
  \<open>U\<close>, together with the interpreter's limit on the digits of an integer literal and the
  text of its division-by-zero message. Every property below holds for every \<open>U\<close>.
  The case mappings are taken on whole strings, since Python's are not character by
  character.
  Python's \<open>int\<close> is unbounded and is modelled as \<open>int\<close>; \<open>%\<close> and \<open>//\<close> are floor
  modulus and floor division, which is what \<open>mod\<close> and \<open>div\<close> on \<open>int\<close> compute.
\<close>

type_synonym pystring = "nat list"

definition py :: "string \<Rightarrow> pystring" where
  "py s = map of_char s"

datatype exn = CipherError pystring | ValueError pystring | ZeroDivisionError

record unicode =
  u_isalpha :: "nat \<Rightarrow> bool"
  u_isspace :: "nat \<Rightarrow> bool"
  u_decimal :: "nat \<Rightarrow> nat option"
  u_upper :: "pystring \<Rightarrow> pystring"
  u_lower :: "pystring \<Rightarrow> pystring"
  u_title :: "pystring \<Rightarrow> pystring"
  u_max_str_digits :: nat
  u_zero_division_message :: pystring

definition ascii_str :: "pystring \<Rightarrow> bool" where
  "ascii_str s = list_all (\<lambda>c. c < 128) s"

text \<open>The comparisons \<open>'a' <= char <= 'z'\<close> and \<open>'A' <= char <= 'Z'\<close> of the source.\<close>

definition is_lower :: "nat \<Rightarrow> bool" where
  "is_lower c = (97 \<le> c \<and> c \<le> 122)"

definition is_upper :: "nat \<Rightarrow> bool" where
  "is_upper c = (65 \<le> c \<and> c \<le> 90)"

definition is_digit :: "nat \<Rightarrow> bool" where
  "is_digit c = (48 \<le> c \<and> c \<le> 57)"

text \<open>\<open>c.isalpha()\<close> and \<open>c.isspace()\<close> for one character.\<close>

definition is_alpha :: "unicode \<Rightarrow> nat \<Rightarrow> bool" where
  "is_alpha U c = (if c < 128 then is_lower c \<or> is_upper c else u_isalpha U c)"

definition is_space :: "unicode \<Rightarrow> nat \<Rightarrow> bool" where
  "is_space U c =
     (if c < 128 then c \<in> {9, 10, 11, 12, 13, 28, 29, 30, 31, 32} else u_isspace U c)"

definition lower_char :: "nat \<Rightarrow> nat" where
  "lower_char c = (if is_upper c then c + 32 else c)"

definition upper_char :: "nat \<Rightarrow> nat" where
  "upper_char c = (if is_lower c then c - 32 else c)"

definition str_lower :: "unicode \<Rightarrow> pystring \<Rightarrow> pystring" where
  "str_lower U s = (if ascii_str s then map lower_char s else u_lower U s)"

definition str_upper :: "unicode \<Rightarrow> pystring \<Rightarrow> pystring" where
  "str_upper U s = (if ascii_str s then map upper_char s else u_upper U s)"

text \<open>\<open>s.isalpha()\<close>: at least one character and every character alphabetic.\<close>

definition str_isalpha :: "unicode \<Rightarrow> pystring \<Rightarrow> bool" where
  "str_isalpha U s = (s \<noteq> [] \<and> list_all (is_alpha U) s)"

text \<open>\<open>s.replace(a, '')\<close> for a one-character \<open>a\<close>.\<close>

definition remove_char :: "nat \<Rightarrow> pystring \<Rightarrow> pystring" where
  "remove_char a s = filter (\<lambda>c. c \<noteq> a) s"

text \<open>\<open>s.replace(a, b)\<close> for one-character \<open>a\<close> and \<open>b\<close>.\<close>

definition replace_char :: "nat \<Rightarrow> nat \<Rightarrow> pystring \<Rightarrow> pystring" where
  "replace_char a b s = map (\<lambda>c. if c = a then b else c) s"

text \<open>\<open>''.join(s.split())\<close>: the white-space characters are dropped.\<close>

definition join_split :: "unicode \<Rightarrow> pystring \<Rightarrow> pystring" where
  "join_split U s = filter (\<lambda>c. \<not> is_space U c) s"

definition lstrip :: "unicode \<Rightarrow> pystring \<Rightarrow> pystring" where
  "lstrip U s = dropWhile (is_space U) s"

definition rstrip :: "unicode \<Rightarrow> pystring \<Rightarrow> pystring" where
  "rstrip U s = rev (dropWhile (is_space U) (rev s))"

definition strip :: "unicode \<Rightarrow> pystring \<Rightarrow> pystring" where
  "strip U s = rstrip U (lstrip U s)"

definition startswith :: "pystring \<Rightarrow> pystring \<Rightarrow> bool" where
  "startswith s p = (take (length p) s = p)"

subsection \<open>\<open>int(s)\<close> and \<open>str(n)\<close>\<close>

text \<open>
  \<open>int(s)\<close> on a string. An ASCII string is parsed as it is. In any other string the
  interpreter first replaces every character from 127 on: white space by a blank, a
  decimal digit by its ASCII digit, anything else by \<open>?\<close>. The parser then skips the
  white space of the C locale (9 to 13 and 32, not 28 to 31) at both ends and reads an
  optional sign and decimal digits, where single underscores may stand between digits.
  A literal with more digits than the interpreter's limit is refused (a limit of 0 means
  none). Every refusal is a \<open>ValueError\<close>, here \<open>None\<close>.
\<close>

definition to_ascii_digits :: "unicode \<Rightarrow> pystring \<Rightarrow> pystring" where
  "to_ascii_digits U s =
     (if ascii_str s then s
      else map (\<lambda>c. if c < 127 then c
                     else if is_space U c then 32
                     else (case (if c < 128 then None else u_decimal U c) of
                             Some d \<Rightarrow> 48 + d
                           | None \<Rightarrow> 63)) s)"

definition c_isspace :: "nat \<Rightarrow> bool" where
  "c_isspace c = (c \<in> {9, 10, 11, 12, 13, 32})"

definition c_strip :: "pystring \<Rightarrow> pystring" where
  "c_strip s = rev (dropWhile c_isspace (rev (dropWhile c_isspace s)))"

fun digits_value :: "int \<Rightarrow> pystring \<Rightarrow> int option" where
  "digits_value acc [] = Some acc"
| "digits_value acc [c] = (if is_digit c then Some (acc * 10 + (int c - 48)) else None)"
| "digits_value acc (c # d # r) =
     (if is_digit c then
        (if d = 95 then
           (case r of [] \<Rightarrow> None
            | e # _ \<Rightarrow> if is_digit e then digits_value (acc * 10 + (int c - 48)) r else None)
         else digits_value (acc * 10 + (int c - 48)) (d # r))
      else None)"

definition parse_digits :: "unicode \<Rightarrow> pystring \<Rightarrow> int option" where
  "parse_digits U s =
     (if s = [] then None
      else if 0 < u_max_str_digits U \<and> u_max_str_digits U < length (filter is_digit s) then None
      else digits_value 0 s)"

definition py_int :: "unicode \<Rightarrow> pystring \<Rightarrow> int option" where
  "py_int U s =
     (case c_strip (to_ascii_digits U s) of
        [] \<Rightarrow> None
      | c # r \<Rightarrow>
          if c = 45 then map_option uminus (parse_digits U r)
          else if c = 43 then parse_digits U r
          else parse_digits U (c # r))"

fun str_nat :: "nat \<Rightarrow> pystring" where
  "str_nat n = (if n < 10 then [48 + n] else str_nat (n div 10) @ [48 + n mod 10])"

declare str_nat.simps [simp del]

text \<open>
  \<open>str(i)\<close>, as the f-strings use it. The integers the source prints were all read by
  \<open>int\<close> from a string within the digit limit, so the limit on printing is not reached.
\<close>

definition str_int :: "int \<Rightarrow> pystring" where
  "str_int i = (if i < 0 then 45 # str_nat (nat (- i)) else str_nat (nat i))"

section \<open>Numeric utilities\<close>

text \<open>\<open>gcd\<close>: \<open>while b: a, b = b, a % b\<close>.\<close>

function gcd_py :: "int \<Rightarrow> int \<Rightarrow> int" where
  "gcd_py a b = (if b = 0 then a else gcd_py b (a mod b))"
  by pat_completeness auto
termination
  by (relation "measure (\<lambda>(a, b). nat \<bar>b\<bar>)")
     (auto simp: abs_mod_less)

declare gcd_py.simps [simp del]

function extended_gcd :: "int \<Rightarrow> int \<Rightarrow> int \<times> int \<times> int" where
  "extended_gcd a b =
     (if a = 0 then (b, 0, 1)
      else (case extended_gcd (b mod a) a of
              (gcd_val, x1, y1) \<Rightarrow> (gcd_val, y1 - (b div a) * x1, x1)))"
  by pat_completeness auto
termination
  by (relation "measure (\<lambda>(a, b). nat \<bar>a\<bar>)")
     (auto simp: abs_mod_less)

declare extended_gcd.simps [simp del]

definition mod_inverse :: "int \<Rightarrow> int \<Rightarrow> exn + int" where
  "mod_inverse a m =
     (case extended_gcd (a mod m) m of
        (gcd_val, x, _) \<Rightarrow>
          if gcd_val \<noteq> 1
          then Inl (CipherError (py ''Modular inverse does not exist for '' @ str_int a
                                 @ py '' and '' @ str_int m))
          else Inr ((x mod m + m) mod m))"

section \<open>Shift-based ciphers\<close>

text \<open>
  \<open>caesar_cipher\<close>: the \<open>isinstance(shift, int)\<close> check cannot fail on an \<open>int\<close>, so the
  transform has no error branch.
\<close>

definition caesar_char :: "int \<Rightarrow> nat \<Rightarrow> nat" where
  "caesar_char shift c =
     (if is_lower c then nat (((int c - 97 - shift) mod 26) + 97)
      else if is_upper c then nat (((int c - 65 - shift) mod 26) + 65)
      else c)"

definition caesar_cipher :: "pystring \<Rightarrow> int \<Rightarrow> pystring" where
  "caesar_cipher text shift = map (caesar_char shift) text"

definition rot13_cipher :: "pystring \<Rightarrow> pystring" where
  "rot13_cipher text = caesar_cipher text 13"

definition atbash_char :: "nat \<Rightarrow> nat" where
  "atbash_char c =
     (if is_lower c then nat (122 - (int c - 97))
      else if is_upper c then nat (90 - (int c - 65))
      else c)"

definition atbash_cipher :: "pystring \<Rightarrow> pystring" where
  "atbash_cipher text = map atbash_char text"

section \<open>Keyword-based ciphers\<close>

text \<open>The check \<open>not keyword or not keyword.replace(' ', '').isalpha()\<close>.\<close>

definition bad_alpha_keyword :: "unicode \<Rightarrow> pystring \<Rightarrow> bool" where
  "bad_alpha_keyword U keyword = (keyword = [] \<or> \<not> str_isalpha U (remove_char 32 keyword))"

definition keyword_as_int :: "unicode \<Rightarrow> pystring \<Rightarrow> int list" where
  "keyword_as_int U keyword = map (\<lambda>k. int k - 97) (str_lower U (join_split U keyword))"

text \<open>The loop over the text; \<open>ki\<close> is \<open>keyword_index\<close>, advanced on letters only.\<close>

fun vigenere_loop :: "int list \<Rightarrow> nat \<Rightarrow> pystring \<Rightarrow> pystring" where
  "vigenere_loop kas ki [] = []"
| "vigenere_loop kas ki (c # cs) =
     (if is_lower c then
        nat (((int c - 97 - kas ! (ki mod length kas)) mod 26) + 97)
          # vigenere_loop kas (ki + 1) cs
      else if is_upper c then
        nat (((int c - 65 - kas ! (ki mod length kas)) mod 26) + 65)
          # vigenere_loop kas (ki + 1) cs
      else c # vigenere_loop kas ki cs)"

text \<open>
  \<open>keyword_index % keyword_len\<close> raises \<open>ZeroDivisionError\<close> at the first letter of the
  text when the cleaned keyword is empty; the loops above are entered with a non-empty
  keyword or a text without letters.
\<close>

definition has_letter :: "pystring \<Rightarrow> bool" where
  "has_letter text = list_ex (\<lambda>c. is_lower c \<or> is_upper c) text"

definition vigenere_cipher :: "unicode \<Rightarrow> pystring \<Rightarrow> pystring \<Rightarrow> exn + pystring" where
  "vigenere_cipher U text keyword =
     (if bad_alpha_keyword U keyword
      then Inl (CipherError (py ''Vigen'' @ [232] @ py ''re cipher requires an alphabetic keyword, got ''
                             @ [39] @ keyword @ [39]))
      else if keyword_as_int U keyword = [] \<and> has_letter text then Inl ZeroDivisionError
      else Inr (vigenere_loop (keyword_as_int U keyword) 0 text))"

fun beaufort_loop :: "int list \<Rightarrow> nat \<Rightarrow> pystring \<Rightarrow> pystring" where
  "beaufort_loop kas ki [] = []"
| "beaufort_loop kas ki (c # cs) =
     (if is_lower c then
        nat (((kas ! (ki mod length kas) - (int c - 97)) mod 26) + 97)
          # beaufort_loop kas (ki + 1) cs
      else if is_upper c then
        nat (((kas ! (ki mod length kas) - (int c - 65)) mod 26) + 65)
          # beaufort_loop kas (ki + 1) cs
      else c # beaufort_loop kas ki cs)"

definition beaufort_cipher :: "unicode \<Rightarrow> pystring \<Rightarrow> pystring \<Rightarrow> exn + pystring" where
  "beaufort_cipher U text keyword =
     (if bad_alpha_keyword U keyword
      then Inl (CipherError (py ''Beaufort cipher requires an alphabetic keyword, got ''
                             @ [39] @ keyword @ [39]))
      else if keyword_as_int U keyword = [] \<and> has_letter text then Inl ZeroDivisionError
      else Inr (beaufort_loop (keyword_as_int U keyword) 0 text))"

section \<open>Substitution ciphers\<close>

definition ascii_lowercase :: pystring where
  "ascii_lowercase = py ''abcdefghijklmnopqrstuvwxyz''"

definition ascii_uppercase :: pystring where
  "ascii_uppercase = py ''ABCDEFGHIJKLMNOPQRSTUVWXYZ''"

text \<open>
  \<open>str.maketrans(xs, ys)\<close> raises \<open>ValueError\<close> when the two strings differ in length,
  and otherwise builds a dictionary entry by entry, a later entry for the same character
  replacing an earlier one; \<open>translate\<close> looks every character up and keeps the ones
  without an entry.
\<close>

definition maketrans :: "pystring \<Rightarrow> pystring \<Rightarrow> exn + (nat \<rightharpoonup> nat)" where
  "maketrans xs ys =
     (if length xs \<noteq> length ys
      then Inl (ValueError (py ''the first two maketrans arguments must have equal length''))
      else Inr (fold (\<lambda>(x, y) m. m(x \<mapsto> y)) (zip xs ys) Map.empty))"

definition translate :: "(nat \<rightharpoonup> nat) \<Rightarrow> pystring \<Rightarrow> pystring" where
  "translate m text = map (\<lambda>c. case m c of None \<Rightarrow> c | Some d \<Rightarrow> d) text"

definition simple_substitution_cipher :: "unicode \<Rightarrow> pystring \<Rightarrow> pystring \<Rightarrow> exn + pystring" where
  "simple_substitution_cipher U text alphabet =
     (if alphabet = [] \<or> length alphabet \<noteq> 26 \<or> \<not> str_isalpha U alphabet
      then Inl (CipherError (py ''Simple substitution requires a 26-letter alphabetic keyword, got ''
                             @ [39] @ alphabet @ [39]))
      else case maketrans (str_lower U alphabet) ascii_lowercase of
             Inl e \<Rightarrow> Inl e
           | Inr lower_mapping \<Rightarrow>
               (case maketrans (str_upper U alphabet) ascii_uppercase of
                  Inl e \<Rightarrow> Inl e
                | Inr upper_mapping \<Rightarrow>
                    Inr (translate upper_mapping (translate lower_mapping text))))"

text \<open>\<open>keyword.split(',', 1)\<close> on a keyword that holds a comma.\<close>

definition split_comma :: "pystring \<Rightarrow> pystring \<times> pystring" where
  "split_comma keyword =
     (takeWhile (\<lambda>c. c \<noteq> 44) keyword, tl (dropWhile (\<lambda>c. c \<noteq> 44) keyword))"

definition affine_char :: "int \<Rightarrow> int \<Rightarrow> nat \<Rightarrow> nat" where
  "affine_char a_inv b c =
     (if is_lower c then nat ((a_inv * ((int c - 97) - b)) mod 26 + 97)
      else if is_upper c then nat ((a_inv * ((int c - 65) - b)) mod 26 + 65)
      else c)"

text \<open>
  The \<open>try\<close> block of \<open>affine_cipher\<close> turns every \<open>ValueError\<close> into the one
  \<open>CipherError\<close> about the format; the \<open>CipherError\<close>s raised inside it pass through.
\<close>

definition affine_format_error :: "pystring \<Rightarrow> exn" where
  "affine_format_error keyword =
     CipherError (py ''Affine cipher requires format '' @ [39] @ py ''a,b'' @ [39]
                  @ py '' with integers, got '' @ [39] @ keyword @ [39])"

definition affine_key :: "unicode \<Rightarrow> pystring \<Rightarrow> exn + (int \<times> int)" where
  "affine_key U keyword =
     (if 44 \<notin> set keyword then Inl (affine_format_error keyword)
      else case split_comma keyword of (a_str, b_str) \<Rightarrow>
        (case py_int U (strip U a_str) of
           None \<Rightarrow> Inl (affine_format_error keyword)
         | Some a \<Rightarrow>
             (case py_int U (strip U b_str) of
                None \<Rightarrow> Inl (affine_format_error keyword)
              | Some b \<Rightarrow>
                  if gcd_py a 26 \<noteq> 1
                  then Inl (CipherError ([39] @ py ''a'' @ [39] @ py '' value ('' @ str_int a
                                         @ py '') must be coprime to 26''))
                  else (case mod_inverse a 26 of
                          Inl e \<Rightarrow> Inl e
                        | Inr a_inv \<Rightarrow> Inr (a_inv, b)))))"

definition affine_cipher :: "unicode \<Rightarrow> pystring \<Rightarrow> pystring \<Rightarrow> exn + pystring" where
  "affine_cipher U text keyword =
     (case affine_key U keyword of
        Inl e \<Rightarrow> Inl e
      | Inr (a_inv, b) \<Rightarrow> Inr (map (affine_char a_inv b) text))"

section \<open>Transposition ciphers\<close>

definition reverse_cipher :: "pystring \<Rightarrow> pystring" where
  "reverse_cipher text = rev text"

text \<open>
  \<open>sorted(enumerate(clean_keyword), key=lambda x: x[1])\<close> is a stable sort on the
  character; \<open>sort_key\<close> is a stable insertion sort.
\<close>

definition column_order_of :: "pystring \<Rightarrow> nat list" where
  "column_order_of clean_keyword = map fst (sort_key snd (enumerate 0 clean_keyword))"

text \<open>\<open>xs.index(v)\<close>: the first position of \<open>v\<close>; \<open>None\<close> stands for the \<open>ValueError\<close>.\<close>

fun index_of :: "'a list \<Rightarrow> 'a \<Rightarrow> nat option" where
  "index_of [] v = None"
| "index_of (x # xs) v = (if x = v then Some 0 else map_option Suc (index_of xs v))"

text \<open>
  The grid is a list of rows, a row a list of cells, a cell a string: \<open>''\<close> until it is
  written, one character afterwards. The state of the filling loops is the grid and
  \<open>text_index\<close>.
\<close>

type_synonym grid = "pystring list list"

definition fill_cell :: "pystring \<Rightarrow> nat \<Rightarrow> nat \<Rightarrow> grid \<times> nat \<Rightarrow> grid \<times> nat" where
  "fill_cell text col_index row st =
     (case st of (grid, text_index) \<Rightarrow>
        if text_index < length text
        then (grid[row := (grid ! row)[col_index := [text ! text_index]]], text_index + 1)
        else (grid, text_index))"

definition fill_column :: "pystring \<Rightarrow> nat \<Rightarrow> nat \<Rightarrow> grid \<times> nat \<Rightarrow> grid \<times> nat" where
  "fill_column text num_rows col_index st = fold (fill_cell text col_index) [0..<num_rows] st"

fun fill_grid :: "pystring \<Rightarrow> nat \<Rightarrow> nat list \<Rightarrow> nat list \<Rightarrow> grid \<times> nat \<Rightarrow> exn + (grid \<times> nat)" where
  "fill_grid text num_rows column_order [] st = Inr st"
| "fill_grid text num_rows column_order (col_priority # ps) st =
     (case index_of column_order col_priority of
        None \<Rightarrow> Inl (ValueError (str_int (int col_priority) @ py '' is not in list''))
      | Some col_index \<Rightarrow>
          fill_grid text num_rows column_order ps (fill_column text num_rows col_index st))"

definition num_rows_of :: "nat \<Rightarrow> nat \<Rightarrow> nat" where
  "num_rows_of len key_length =
     (if len mod key_length \<noteq> 0 then len div key_length + 1 else len div key_length)"

text \<open>
  \<open>len(text) // key_length\<close> raises \<open>ZeroDivisionError\<close> when the cleaned keyword is
  empty.
\<close>

definition columnar_transposition_cipher :: "unicode \<Rightarrow> pystring \<Rightarrow> pystring \<Rightarrow> exn + pystring" where
  "columnar_transposition_cipher U text keyword =
     (if bad_alpha_keyword U keyword
      then Inl (CipherError (py ''Columnar transposition requires an alphabetic keyword, got ''
                             @ [39] @ keyword @ [39]))
      else
        let clean_keyword = str_upper U (join_split U keyword);
            key_length = length clean_keyword;
            column_order = column_order_of clean_keyword
        in if key_length = 0 then Inl ZeroDivisionError
           else
             let num_rows = num_rows_of (length text) key_length;
                 grid = replicate num_rows (replicate key_length [])
             in case fill_grid text num_rows column_order [0..<key_length] (grid, 0) of
                  Inl e \<Rightarrow> Inl e
                | Inr (grid', _) \<Rightarrow> Inr (rstrip U (concat (concat grid'))))"

text \<open>
  \<open>rail_fence_cipher\<close>. \<open>chars_in_rail\<close> is the count the source computes for a rail from
  \<open>full_cycles\<close> and \<open>remainder\<close>.
\<close>

definition chars_in_rail :: "nat \<Rightarrow> nat \<Rightarrow> nat \<Rightarrow> nat" where
  "chars_in_rail num_rails len rail =
     (let cycle_length = 2 * (num_rails - 1);
          full_cycles = len div cycle_length;
          remainder = len mod cycle_length
      in if rail = 0 \<or> rail = num_rails - 1
         then (if remainder > rail then full_cycles + 1 else full_cycles)
         else (let c1 = full_cycles * 2;
                   c2 = (if remainder > rail then c1 + 1 else c1)
               in if remainder > cycle_length - rail then c2 + 1 else c2))"

text \<open>
  \<open>for _ in range(chars_in_rail): if text_index < len(text): ...\<close>; the state is the rail
  being filled and \<open>text_index\<close>.
\<close>

fun extract_chars :: "pystring \<Rightarrow> nat \<Rightarrow> pystring \<times> nat \<Rightarrow> pystring \<times> nat" where
  "extract_chars text 0 st = st"
| "extract_chars text (Suc n) (r, text_index) =
     (if text_index < length text
      then extract_chars text n (r @ [text ! text_index], text_index + 1)
      else extract_chars text n (r, text_index))"

definition fill_rail :: "pystring \<Rightarrow> nat \<Rightarrow> nat \<Rightarrow> pystring list \<times> nat \<Rightarrow> pystring list \<times> nat" where
  "fill_rail text num_rails rail st =
     (case st of (rails, text_index) \<Rightarrow>
        (case extract_chars text (chars_in_rail num_rails (length text) rail)
                (rails ! rail, text_index) of
           (r, text_index') \<Rightarrow> (rails[rail := r], text_index')))"

definition fill_rails :: "pystring \<Rightarrow> nat \<Rightarrow> pystring list" where
  "fill_rails text num_rails =
     fst (fold (fill_rail text num_rails) [0..<num_rails] (replicate num_rails [], 0))"

definition rail_of :: "nat \<Rightarrow> nat \<Rightarrow> nat" where
  "rail_of num_rails i =
     (let cycle_length = 2 * (num_rails - 1);
          cycle_pos = i mod cycle_length
      in if cycle_pos < num_rails then cycle_pos else cycle_length - cycle_pos)"

text \<open>
  The reconstruction loop; the state is \<open>result\<close> (a list of cells, \<open>''\<close> until written)
  and \<open>rail_indices\<close>.
\<close>

definition reconstruct_step ::
  "pystring list \<Rightarrow> nat \<Rightarrow> nat \<Rightarrow> pystring list \<times> nat list \<Rightarrow> pystring list \<times> nat list" where
  "reconstruct_step rails num_rails i st =
     (case st of (result, rail_indices) \<Rightarrow>
        let rail = rail_of num_rails i
        in if rail_indices ! rail < length (rails ! rail)
           then (result[i := [rails ! rail ! (rail_indices ! rail)]],
                 rail_indices[rail := rail_indices ! rail + 1])
           else (result, rail_indices))"

definition reconstruct :: "pystring list \<Rightarrow> nat \<Rightarrow> nat \<Rightarrow> pystring" where
  "reconstruct rails num_rails len =
     concat (fst (fold (reconstruct_step rails num_rails) [0..<len]
                    (replicate len [], replicate num_rails 0)))"

definition rail_fence_cipher :: "unicode \<Rightarrow> pystring \<Rightarrow> pystring \<Rightarrow> exn + pystring" where
  "rail_fence_cipher U text keyword =
     (case py_int U keyword of
        None \<Rightarrow> Inl (CipherError (py ''Rail fence cipher requires a positive integer >= 2, got ''
                                   @ [39] @ keyword @ [39]))
      | Some num_rails \<Rightarrow>
          if num_rails < 2
          then Inl (CipherError (py ''Rail fence cipher requires a positive integer >= 2, got ''
                                 @ [39] @ keyword @ [39]))
          else if int (length text) \<le> num_rails then Inr text
          else Inr (reconstruct (fill_rails text (nat num_rails)) (nat num_rails) (length text)))"

section \<open>Playfair\<close>

definition playfair_alphabet :: pystring where
  "playfair_alphabet = py ''ABCDEFGHIKLMNOPQRSTUVWXYZ''"

text \<open>The two loops that build \<open>grid_chars\<close>; the state is \<open>grid_chars\<close> and \<open>seen\<close>.\<close>

definition add_keyword_char :: "nat \<Rightarrow> pystring \<times> nat set \<Rightarrow> pystring \<times> nat set" where
  "add_keyword_char c st =
     (case st of (grid_chars, seen) \<Rightarrow>
        if c \<notin> seen \<and> c \<in> set playfair_alphabet
        then (grid_chars @ [c], insert c seen)
        else (grid_chars, seen))"

definition add_alphabet_char :: "nat set \<Rightarrow> nat \<Rightarrow> pystring \<Rightarrow> pystring" where
  "add_alphabet_char seen c grid_chars = (if c \<notin> seen then grid_chars @ [c] else grid_chars)"

definition grid_chars_of :: "pystring \<Rightarrow> pystring" where
  "grid_chars_of clean_keyword =
     (case fold add_keyword_char clean_keyword ([], {}) of
        (grid_chars, seen) \<Rightarrow> fold (add_alphabet_char seen) playfair_alphabet grid_chars)"

definition char_to_pos_of :: "pystring \<Rightarrow> (nat \<rightharpoonup> nat \<times> nat)" where
  "char_to_pos_of grid_chars =
     fold (\<lambda>(i, c) m. m(c \<mapsto> (i div 5, i mod 5))) (enumerate 0 grid_chars) Map.empty"

text \<open>\<open>''.join(c.upper() for c in text if c.isalpha()).replace('J', 'I')\<close>\<close>

definition playfair_clean_text :: "unicode \<Rightarrow> pystring \<Rightarrow> pystring" where
  "playfair_clean_text U text =
     replace_char 74 73 (concat (map (\<lambda>c. str_upper U [c]) (filter (is_alpha U) text)))"

definition decrypt_pair :: "pystring \<Rightarrow> (nat \<rightharpoonup> nat \<times> nat) \<Rightarrow> nat \<Rightarrow> nat \<Rightarrow> pystring" where
  "decrypt_pair grid_chars char_to_pos char1 char2 =
     (case (char_to_pos char1, char_to_pos char2) of
        (Some (row1, col1), Some (row2, col2)) \<Rightarrow>
          if row1 = row2 then
            [grid_chars ! (row1 * 5 + nat ((int col1 - 1) mod 5)),
             grid_chars ! (row2 * 5 + nat ((int col2 - 1) mod 5))]
          else if col1 = col2 then
            [grid_chars ! (nat ((int row1 - 1) mod 5) * 5 + col1),
             grid_chars ! (nat ((int row2 - 1) mod 5) * 5 + col2)]
          else
            [grid_chars ! (row1 * 5 + col2), grid_chars ! (row2 * 5 + col1)]
      | _ \<Rightarrow> [char1, char2])"

text \<open>
  \<open>for i in range(0, len(clean_text), 2)\<close>: the loop runs on a text of even length only,
  so the last equation is never reached from \<open>playfair_cipher\<close>.
\<close>

fun decrypt_pairs :: "pystring \<Rightarrow> (nat \<rightharpoonup> nat \<times> nat) \<Rightarrow> pystring \<Rightarrow> pystring" where
  "decrypt_pairs grid_chars char_to_pos (char1 # char2 # rest) =
     decrypt_pair grid_chars char_to_pos char1 char2 @ decrypt_pairs grid_chars char_to_pos rest"
| "decrypt_pairs grid_chars char_to_pos _ = []"

definition playfair_cipher :: "unicode \<Rightarrow> pystring \<Rightarrow> pystring \<Rightarrow> exn + pystring" where
  "playfair_cipher U text keyword =
     (if bad_alpha_keyword U keyword
      then Inl (CipherError (py ''Playfair cipher requires an alphabetic keyword, got ''
                             @ [39] @ keyword @ [39]))
      else
        let clean_keyword = replace_char 74 73 (str_upper U (join_split U keyword));
            grid_chars = grid_chars_of clean_keyword;
            char_to_pos = char_to_pos_of grid_chars;
            clean_text = playfair_clean_text U text
        in if length clean_text mod 2 \<noteq> 0
           then Inl (CipherError (py ''Playfair cipher requires even-length text''))
           else Inr (decrypt_pairs grid_chars char_to_pos clean_text))"

section \<open>The dispatch facade\<close>

text \<open>\<open>cipher_method.lower().replace('_', '').replace('-', '').replace(' ', '')\<close>\<close>

definition normalize_method :: "unicode \<Rightarrow> pystring \<Rightarrow> pystring" where
  "normalize_method U cipher_method =
     remove_char 32 (remove_char 45 (remove_char 95 (str_lower U cipher_method)))"

text \<open>
  \<open>s.title()\<close> on an ASCII string: a letter is upper-cased after a character without
  case, lower-cased after a letter.
\<close>

fun title_from :: "bool \<Rightarrow> pystring \<Rightarrow> pystring" where
  "title_from prev_cased [] = []"
| "title_from prev_cased (c # cs) =
     (if is_lower c then (if prev_cased then c else upper_char c) # title_from True cs
      else if is_upper c then (if prev_cased then lower_char c else c) # title_from True cs
      else c # title_from False cs)"

definition title :: "unicode \<Rightarrow> pystring \<Rightarrow> pystring" where
  "title U s = (if ascii_str s then title_from False s else u_title U s)"

fun join_with :: "pystring \<Rightarrow> pystring list \<Rightarrow> pystring" where
  "join_with sep [] = []"
| "join_with sep [x] = x"
| "join_with sep (x # y # ys) = x @ sep @ join_with sep (y # ys)"

definition available_ciphers :: "pystring list" where
  "available_ciphers =
     map py [''caesar'', ''rot13'', ''atbash'', ''vigenere'', ''beaufort'',
      ''simple_substitution'', ''affine'', ''reverse'',
      ''columnar_transposition'', ''rail_fence'', ''playfair'']"

definition unknown_method_message :: "pystring \<Rightarrow> pystring" where
  "unknown_method_message cipher_method =
     py ''Error: Unknown cipher method '' @ [39] @ cipher_method @ [39]
       @ py ''. Available ciphers: '' @ join_with (py '', '') available_ciphers"

definition requires_keyword_message :: "unicode \<Rightarrow> pystring \<Rightarrow> pystring" where
  "requires_keyword_message U cipher_method =
     py ''Error: '' @ title U cipher_method @ py '' cipher requires a keyword.''"

text \<open>
  The body of the \<open>try\<close> block of \<open>apply_cipher\<close>, on the normalised method name:
  \<open>Inr\<close> is a returned string, \<open>Inl\<close> an exception raised by a transform.
\<close>

definition dispatch :: "unicode \<Rightarrow> pystring \<Rightarrow> pystring \<Rightarrow> pystring \<Rightarrow> exn + pystring" where
  "dispatch U ciphertext keyword cipher_method =
     (if cipher_method = py ''reverse'' then Inr (reverse_cipher ciphertext)
      else if cipher_method = py ''rot13'' then Inr (rot13_cipher ciphertext)
      else if cipher_method = py ''atbash'' then Inr (atbash_cipher ciphertext)
      else if keyword = [] then Inr (requires_keyword_message U cipher_method)
      else if cipher_method = py ''caesar'' then
        (case py_int U keyword of
           Some shift \<Rightarrow> Inr (caesar_cipher ciphertext shift)
         | None \<Rightarrow> Inr (py ''Error: Caesar cipher requires a numeric keyword, got ''
                         @ [39] @ keyword @ [39] @ py ''.''))
      else if cipher_method = py ''vigenere'' then vigenere_cipher U ciphertext keyword
      else if cipher_method = py ''beaufort'' then beaufort_cipher U ciphertext keyword
      else if cipher_method \<in> set (map py [''simplesubstitution'', ''substitution'', ''monoalphabetic''])
        then simple_substitution_cipher U ciphertext keyword
      else if cipher_method = py ''affine'' then affine_cipher U ciphertext keyword
      else if cipher_method \<in> set (map py [''columnartransposition'', ''columnar''])
        then columnar_transposition_cipher U ciphertext keyword
      else if cipher_method \<in> set (map py [''railfence'', ''zigzag''])
        then rail_fence_cipher U ciphertext keyword
      else if cipher_method = py ''playfair'' then playfair_cipher U ciphertext keyword
      else Inr (unknown_method_message cipher_method))"

text \<open>\<open>str(e)\<close> for the exception \<open>e\<close>.\<close>

definition exn_message :: "unicode \<Rightarrow> exn \<Rightarrow> pystring" where
  "exn_message U e =
     (case e of CipherError msg \<Rightarrow> msg | ValueError msg \<Rightarrow> msg
      | ZeroDivisionError \<Rightarrow> u_zero_division_message U)"

text \<open>
  \<open>apply_cipher\<close>: the two \<open>except\<close> clauses turn a \<open>CipherError\<close> into \<open>Error: ...\<close> and
  any other exception into \<open>Unexpected error: ...\<close>. The \<open>print\<close> is left out.
\<close>

definition apply_cipher :: "unicode \<Rightarrow> pystring \<Rightarrow> pystring \<Rightarrow> pystring \<Rightarrow> pystring" where
  "apply_cipher U ciphertext keyword cipher_method =
     (if ciphertext = [] then py ''Error: No ciphertext provided.''
      else case dispatch U ciphertext keyword (normalize_method U cipher_method) of
             Inr s \<Rightarrow> s
           | Inl (CipherError msg) \<Rightarrow> py ''Error: '' @ msg
           | Inl e \<Rightarrow> py ''Unexpected error: '' @ exn_message U e)"

section \<open>Key admissibility and generation\<close>

text \<open>\<open>re.split(r'[,\n]', s)\<close>\<close>

fun split_on :: "(nat \<Rightarrow> bool) \<Rightarrow> pystring \<Rightarrow> pystring list" where
  "split_on P [] = [[]]"
| "split_on P (c # cs) =
     (if P c then [] # split_on P cs
      else (case split_on P cs of
              [] \<Rightarrow> [[c]]
            | w # ws \<Rightarrow> (c # w) # ws))"

definition parse_keywords :: "unicode \<Rightarrow> pystring \<Rightarrow> pystring list" where
  "parse_keywords U keyword_string =
     (if keyword_string = [] then []
      else filter (\<lambda>cleaned. cleaned \<noteq> [])
             (map (strip U) (split_on (\<lambda>c. c = 44 \<or> c = 10) keyword_string)))"

text \<open>\<open>len(set(s))\<close> is the number of distinct characters of \<open>s\<close>.\<close>

definition is_substitution_alphabet :: "unicode \<Rightarrow> pystring \<Rightarrow> bool" where
  "is_substitution_alphabet U keyword =
     (let clean_keyword = remove_char 32 keyword
      in length clean_keyword = 26 \<and> str_isalpha U clean_keyword
         \<and> length (remdups (str_lower U clean_keyword)) = 26)"

definition is_valid_keyword_for_cipher :: "unicode \<Rightarrow> pystring \<Rightarrow> pystring \<Rightarrow> bool" where
  "is_valid_keyword_for_cipher U keyword cipher_method0 =
     (let cipher_method = normalize_method U cipher_method0
      in if cipher_method \<in> set (map py [''reverse'', ''rot13'', ''atbash'']) then keyword = []
         else if cipher_method = py ''caesar'' then py_int U keyword \<noteq> None
         else if cipher_method \<in> set (map py [''railfence'', ''zigzag'']) then
           (case py_int U keyword of None \<Rightarrow> False | Some num \<Rightarrow> num \<ge> 2)
         else if cipher_method = py ''affine'' then
           (if 44 \<notin> set keyword then False
            else case split_comma keyword of (a_str, b_str) \<Rightarrow>
              (case py_int U (strip U a_str) of
                 None \<Rightarrow> False
               | Some a \<Rightarrow>
                   (case py_int U (strip U b_str) of
                      None \<Rightarrow> False
                    | Some b \<Rightarrow> gcd_py a 26 = 1)))
         else if cipher_method \<in> set (map py [''vigenere'', ''beaufort'', ''columnartransposition'',
                                      ''columnar'', ''playfair''])
           then str_isalpha U (remove_char 32 keyword)
                \<and> length (remove_char 32 keyword) > 0
         else if cipher_method \<in> set (map py [''simplesubstitution'', ''substitution'',
                                      ''monoalphabetic''])
           then is_substitution_alphabet U keyword
         else False)"

definition pool_numbers :: "unicode \<Rightarrow> pystring list \<Rightarrow> int list" where
  "pool_numbers U keywords = List.map_filter (py_int U) keywords"

definition generate_affine_combinations :: "unicode \<Rightarrow> pystring list \<Rightarrow> pystring list" where
  "generate_affine_combinations U keywords =
     (let numbers = pool_numbers U keywords
      in concat (map (\<lambda>a. if gcd_py \<bar>a\<bar> 26 = 1
                           then map (\<lambda>b. str_int a @ py '','' @ str_int b) numbers
                           else []) numbers))"

definition generate_substitution_alphabet :: "unicode \<Rightarrow> pystring list \<Rightarrow> pystring list" where
  "generate_substitution_alphabet U keywords = filter (is_substitution_alphabet U) keywords"

section \<open>Testing every combination\<close>

text \<open>
  A result record of \<open>test_all_cipher_combinations\<close> is a Python dictionary, modelled as
  the list of its (key, value) entries in insertion order.
\<close>

type_synonym result_record = "(pystring \<times> pystring) list"

definition cipher_methods :: "pystring list" where
  "cipher_methods =
     map py [''caesar'', ''rot13'', ''atbash'', ''vigenere'', ''beaufort'',
      ''simple_substitution'', ''affine'', ''reverse'',
      ''columnar_transposition'', ''rail_fence'', ''playfair'']"

definition result_record_of :: "unicode \<Rightarrow> pystring \<Rightarrow> pystring \<Rightarrow> pystring \<Rightarrow> result_record" where
  "result_record_of U ciphertext cipher_method keyword =
     (let result = apply_cipher U ciphertext keyword cipher_method
      in [(py ''keyword'', keyword),
          (py ''cipher'', cipher_method),
          (py ''status'', if \<not> startswith result (py ''Error'') then py ''Success'' else py ''Error''),
          (py ''result'', result)])"

definition test_cipher_method :: "unicode \<Rightarrow> pystring \<Rightarrow> pystring list \<Rightarrow> pystring \<Rightarrow> result_record list" where
  "test_cipher_method U ciphertext keywords cipher_method =
     (if cipher_method \<in> set (map py [''reverse'', ''rot13'', ''atbash''])
      then [result_record_of U ciphertext cipher_method []]
      else if cipher_method = py ''affine''
      then map (result_record_of U ciphertext cipher_method)
             (generate_affine_combinations U keywords)
      else if cipher_method = py ''simple_substitution''
      then map (result_record_of U ciphertext cipher_method)
             (generate_substitution_alphabet U keywords)
      else map (result_record_of U ciphertext cipher_method)
             (filter (\<lambda>keyword. is_valid_keyword_for_cipher U keyword cipher_method) keywords))"

definition test_all_cipher_combinations :: "unicode \<Rightarrow> pystring \<Rightarrow> pystring \<Rightarrow> result_record list" where
  "test_all_cipher_combinations U ciphertext keyword_string =
     (if ciphertext = [] then [[(py ''error'', py ''No ciphertext provided'')]]
      else concat (map (test_cipher_method U ciphertext (parse_keywords U keyword_string))
                     cipher_methods))"

section \<open>The search engine of the application\<close>

text \<open>
  \<open>run_comprehensive_decryption_tests\<close> mutates the set \<open>tested_pairs\<close>, calls
  \<open>display_result_in_ui\<close> and \<open>save_single_result\<close>, and counts. The state below holds the
  set, the sequence of displayed outcomes (keyword, text, meaningful, method), the sequence
  of saved results, and the two counters. \<open>evaluate_decryption_result\<close> draws a random
  boolean: the model takes the sequence of draws as a parameter \<open>coin\<close> and counts the
  calls in \<open>draws\<close>.
\<close>

type_synonym outcome = "pystring \<times> pystring \<times> bool \<times> pystring"

record engine_state =
  tested_pairs :: "(pystring \<times> pystring) set"
  displayed :: "outcome list"
  saved :: "outcome list"
  total_tests :: nat
  new_tests :: nat
  draws :: nat

text \<open>
  One attempt: dispatch, evaluate and save unless the text starts with \<open>Error:\<close>, display,
  add the pair to \<open>tested_pairs\<close>, count it as new.
\<close>

definition run_attempt ::
  "unicode \<Rightarrow> (nat \<Rightarrow> bool) \<Rightarrow> pystring \<Rightarrow> pystring \<Rightarrow> pystring \<Rightarrow> engine_state \<Rightarrow> engine_state" where
  "run_attempt U coin ciphertext keyword cipher_method st =
     (let result = apply_cipher U ciphertext keyword cipher_method;
          ok = \<not> startswith result (py ''Error:'');
          is_meaningful = (if ok then coin (draws st) else False)
      in st\<lparr>tested_pairs := insert (keyword, cipher_method) (tested_pairs st),
             displayed := displayed st @ [(keyword, result, is_meaningful, cipher_method)],
             saved := (if ok then saved st @ [(keyword, result, is_meaningful, cipher_method)]
                       else saved st),
             new_tests := new_tests st + 1,
             draws := (if ok then draws st + 1 else draws st)\<rparr>)"

text \<open>A generated candidate (keyword-free cipher, affine combination, substitution alphabet).\<close>

definition try_generated ::
  "unicode \<Rightarrow> (nat \<Rightarrow> bool) \<Rightarrow> pystring \<Rightarrow> pystring \<Rightarrow> pystring \<Rightarrow> engine_state \<Rightarrow> engine_state" where
  "try_generated U coin ciphertext cipher_method keyword st =
     (let st' = (if (keyword, cipher_method) \<notin> tested_pairs st
                 then run_attempt U coin ciphertext keyword cipher_method st
                 else st)
      in st'\<lparr>total_tests := total_tests st' + 1\<rparr>)"

text \<open>A raw pool entry for one of the other ciphers.\<close>

definition try_keyword ::
  "unicode \<Rightarrow> (nat \<Rightarrow> bool) \<Rightarrow> pystring \<Rightarrow> pystring \<Rightarrow> pystring \<Rightarrow> engine_state \<Rightarrow> engine_state" where
  "try_keyword U coin ciphertext cipher_method keyword st =
     (if (keyword, cipher_method) \<in> tested_pairs st
      then st\<lparr>total_tests := total_tests st + 1\<rparr>
      else if \<not> is_valid_keyword_for_cipher U keyword cipher_method
      then st\<lparr>tested_pairs := insert (keyword, cipher_method) (tested_pairs st),
               total_tests := total_tests st + 1\<rparr>
      else (let st' = run_attempt U coin ciphertext keyword cipher_method st
            in st'\<lparr>total_tests := total_tests st' + 1\<rparr>))"

definition run_cipher_method ::
  "unicode \<Rightarrow> (nat \<Rightarrow> bool) \<Rightarrow> pystring \<Rightarrow> pystring list \<Rightarrow> pystring \<Rightarrow> engine_state \<Rightarrow> engine_state" where
  "run_cipher_method U coin ciphertext keywords cipher_method st =
     (if cipher_method \<in> set (map py [''reverse'', ''rot13'', ''atbash''])
      then try_generated U coin ciphertext cipher_method [] st
      else if cipher_method = py ''affine''
      then fold (try_generated U coin ciphertext cipher_method)
             (generate_affine_combinations U keywords) st
      else if cipher_method = py ''simple_substitution''
      then fold (try_generated U coin ciphertext cipher_method)
             (generate_substitution_alphabet U keywords) st
      else fold (try_keyword U coin ciphertext cipher_method) keywords st)"

text \<open>
  The run: \<open>tested\<close> is the set handed in; the counters start at 0. With no keyword left
  after parsing the function returns at once.
\<close>

definition initial_state :: "(pystring \<times> pystring) set \<Rightarrow> engine_state" where
  "initial_state tested =
     \<lparr>tested_pairs = tested, displayed = [], saved = [], total_tests = 0, new_tests = 0,
      draws = 0\<rparr>"

definition run_comprehensive_decryption_tests ::
  "unicode \<Rightarrow> (nat \<Rightarrow> bool) \<Rightarrow> pystring \<Rightarrow> pystring list \<Rightarrow> (pystring \<times> pystring) set
     \<Rightarrow> engine_state" where
  "run_comprehensive_decryption_tests U coin ciphertext keywords_input tested =
     (let keywords = parse_keywords U (join_with (py '','') keywords_input)
      in if keywords = [] then initial_state tested
         else fold (run_cipher_method U coin ciphertext keywords) cipher_methods
                (initial_state tested))"

text \<open>The tally printed at the end: \<open>total_tests - new_tests\<close>.\<close>

definition skipped :: "engine_state \<Rightarrow> int" where
  "skipped st = int (total_tests st) - int (new_tests st)"

section \<open>Reference definitions used by the properties\<close>

text \<open>
  A table for evaluating the functions on concrete strings: Python's classification and
  case mappings for the code points 128 to 255, the interpreter's default digit limit
  and division message. Strings with a code point above 255 are outside this table (it
  treats such a code point as no letter, no space and no digit, and maps it to itself).
\<close>

definition latin1_isalpha :: "nat \<Rightarrow> bool" where
  "latin1_isalpha c =
     (c = 170 \<or> c = 181 \<or> c = 186 \<or> (192 \<le> c \<and> c \<le> 255 \<and> c \<noteq> 215 \<and> c \<noteq> 247))"

definition latin1_upper_char :: "nat \<Rightarrow> pystring" where
  "latin1_upper_char c =
     (if is_lower c then [c - 32]
      else if c = 181 then [924]
      else if c = 223 then [83, 83]
      else if c = 255 then [376]
      else if 224 \<le> c \<and> c \<le> 254 \<and> c \<noteq> 247 then [c - 32]
      else [c])"

definition latin1_lower_char :: "nat \<Rightarrow> pystring" where
  "latin1_lower_char c =
     (if is_upper c then [c + 32]
      else if 192 \<le> c \<and> c \<le> 222 \<and> c \<noteq> 215 then [c + 32]
      else [c])"

fun latin1_title_from :: "bool \<Rightarrow> pystring \<Rightarrow> pystring" where
  "latin1_title_from prev_cased [] = []"
| "latin1_title_from prev_cased (c # cs) =
     (if prev_cased then latin1_lower_char c
      else if c = 223 then [83, 115]
      else latin1_upper_char c)
     @ latin1_title_from (is_lower c \<or> is_upper c \<or> latin1_isalpha c) cs"

definition latin1_tables :: unicode where
  "latin1_tables =
     \<lparr>u_isalpha = latin1_isalpha,
      u_isspace = (\<lambda>c. c = 133 \<or> c = 160),
      u_decimal = (\<lambda>c. None),
      u_upper = (\<lambda>s. concat (map latin1_upper_char s)),
      u_lower = (\<lambda>s. concat (map latin1_lower_char s)),
      u_title = latin1_title_from False,
      u_max_str_digits = 4300,
      u_zero_division_message = py ''integer division or modulo by zero''\<rparr>"

text \<open>A number read by \<open>int\<close> prints within the digit limit.\<close>

definition within_limit :: "unicode \<Rightarrow> int \<Rightarrow> bool" where
  "within_limit U a =
     (\<not> (0 < u_max_str_digits U \<and> u_max_str_digits U < length (str_nat (nat \<bar>a\<bar>))))"

definition candidate_keys :: "unicode \<Rightarrow> pystring list \<Rightarrow> pystring \<Rightarrow> pystring list" where
  "candidate_keys U keywords cipher_method =
     (if cipher_method \<in> set (map py [''reverse'', ''rot13'', ''atbash'']) then [[]]
      else if cipher_method = py ''affine'' then generate_affine_combinations U keywords
      else if cipher_method = py ''simple_substitution''
      then generate_substitution_alphabet U keywords
      else keywords)"

definition all_candidates :: "unicode \<Rightarrow> pystring list \<Rightarrow> (pystring \<times> pystring) list" where
  "all_candidates U keywords =
     concat (map (\<lambda>m. map (\<lambda>k. (k, m)) (candidate_keys U keywords m)) cipher_methods)"

fun fresh :: "'a set \<Rightarrow> 'a list \<Rightarrow> 'a list" where
  "fresh T [] = []"
| "fresh T (p # ps) = (if p \<in> T then fresh T ps else p # fresh (insert p T) ps)"

definition attempted :: "unicode \<Rightarrow> (pystring \<times> pystring) set \<Rightarrow> (pystring \<times> pystring) list
    \<Rightarrow> (pystring \<times> pystring) list" where
  "attempted U tested cands =
     filter (\<lambda>(k, m). is_valid_keyword_for_cipher U k m) (fresh tested cands)"

definition outcome_key :: "outcome \<Rightarrow> pystring \<times> pystring \<times> pystring" where
  "outcome_key x = (case x of (k, r, f, m) \<Rightarrow> (k, r, m))"

definition step :: "unicode \<Rightarrow> (nat \<Rightarrow> bool) \<Rightarrow> pystring \<Rightarrow> pystring \<times> pystring
    \<Rightarrow> engine_state \<Rightarrow> engine_state" where
  "step U coin c p st = try_keyword U coin c (snd p) (fst p) st"




definition maketrans_message :: pystring where
  "maketrans_message = py ''the first two maketrans arguments must have equal length''"

text \<open>
  The reference decryption of Playfair, written from its description: the grid is the
  keyword's letters (white space removed, upper case, J folded to I, letters of the
  25-letter alphabet only) without repetitions, in order of first occurrence, followed by
  the letters of the alphabet not among them; a letter's row and column are its position
  in the grid divided by 5 and modulo 5; a digraph on one row moves both letters one
  column to the left, a digraph in one column moves both one row up, both with
  wrap-around, and any other digraph swaps the columns; a digraph with a letter that is
  not in the grid is kept; a cleaned text of odd length is an error.
\<close>

definition first_occurrences :: "'a list \<Rightarrow> 'a list" where
  "first_occurrences xs = rev (remdups (rev xs))"

definition spec_keyword_letters :: "unicode \<Rightarrow> pystring \<Rightarrow> pystring" where
  "spec_keyword_letters U keyword =
     filter (\<lambda>c. c \<in> set playfair_alphabet)
       (replace_char 74 73 (str_upper U (join_split U keyword)))"

definition spec_grid :: "unicode \<Rightarrow> pystring \<Rightarrow> pystring" where
  "spec_grid U keyword =
     (let ks = first_occurrences (spec_keyword_letters U keyword)
      in ks @ filter (\<lambda>c. c \<notin> set ks) playfair_alphabet)"

definition spec_digraph :: "pystring \<Rightarrow> nat \<Rightarrow> nat \<Rightarrow> pystring" where
  "spec_digraph g a b =
     (case (index_of g a, index_of g b) of
        (Some i, Some j) \<Rightarrow>
          (let row1 = i div 5; col1 = i mod 5; row2 = j div 5; col2 = j mod 5
           in if row1 = row2
              then [g ! (row1 * 5 + (col1 + 4) mod 5), g ! (row2 * 5 + (col2 + 4) mod 5)]
              else if col1 = col2
              then [g ! (((row1 + 4) mod 5) * 5 + col1), g ! (((row2 + 4) mod 5) * 5 + col2)]
              else [g ! (row1 * 5 + col2), g ! (row2 * 5 + col1)])
      | _ \<Rightarrow> [a, b])"

fun spec_digraphs :: "pystring \<Rightarrow> pystring \<Rightarrow> pystring" where
  "spec_digraphs g (a # b # rest) = spec_digraph g a b @ spec_digraphs g rest"
| "spec_digraphs g _ = []"

definition playfair_spec :: "unicode \<Rightarrow> pystring \<Rightarrow> pystring \<Rightarrow> exn + pystring" where
  "playfair_spec U text keyword =
     (let cleaned = playfair_clean_text U text
      in if odd (length cleaned)
         then Inl (CipherError (py ''Playfair cipher requires even-length text''))
         else Inr (spec_digraphs (spec_grid U keyword) cleaned))"

text \<open>
  \<open>kept_in_place letter text out\<close>: the two strings have the same length and every
  character of \<open>text\<close> that is not a letter stands unchanged at the same index of \<open>out\<close>.
  \<open>ring_letter\<close> is a letter of one of the two 26-symbol rings, the test the shift
  ciphers make; a character that is not alphabetic for Python is not one of them.
\<close>

definition kept_in_place :: "(nat \<Rightarrow> bool) \<Rightarrow> pystring \<Rightarrow> pystring \<Rightarrow> bool" where
  "kept_in_place letter text out = list_all2 (\<lambda>c d. \<not> letter c \<longrightarrow> d = c) text out"

definition ring_letter :: "nat \<Rightarrow> bool" where
  "ring_letter c = (is_lower c \<or> is_upper c)"

section \<open>Properties of the numeric utilities and of number formatting\<close>

lemma gcd_py_pos: "0 < b \<Longrightarrow> gcd_py a b = gcd a b"
proof (induction a b rule: gcd_py.induct)
  case (1 a b)
  show ?case
  proof (cases "a mod b = 0")
    case True
    then have "gcd_py a b = b" using 1(2) by (simp add: gcd_py.simps [of a b] gcd_py.simps [of b 0])
    moreover have "gcd a b = b" using True 1(2)
      by (metis abs_of_pos gcd_0_int gcd.commute gcd_red_int)
    ultimately show ?thesis by simp
  next
    case False
    then have pos: "0 < a mod b" using 1(2)
      by (metis less_le pos_mod_sign)
    have "gcd_py a b = gcd_py b (a mod b)" using 1(2) by (simp add: gcd_py.simps [of a b])
    also have "\<dots> = gcd b (a mod b)" using 1(1) 1(2) pos by simp
    also have "\<dots> = gcd a b" by (metis gcd.commute gcd_red_int)
    finally show ?thesis .
  qed
qed

lemma gcd_py_26: "gcd_py a 26 = gcd a 26"
  by (rule gcd_py_pos) simp

lemma gcd_py_abs_26: "(gcd_py \<bar>a\<bar> 26 = 1) = coprime a 26"
  by (simp add: gcd_py_26 coprime_iff_gcd_eq_1)

lemma digits_value_foldl:
  "list_all is_digit ds \<Longrightarrow>
   digits_value acc ds = Some (foldl (\<lambda>v c. v * 10 + (int c - 48)) acc ds)"
proof (induction acc ds rule: digits_value.induct)
  case (3 acc c d r)
  then have "d \<noteq> 95" by (auto simp: is_digit_def)
  with 3 show ?case by simp
qed simp_all

lemma str_nat_digits: "list_all is_digit (str_nat n)"
proof (induction n rule: str_nat.induct)
  case (1 n)
  show ?case
  proof (cases "n < 10")
    case True
    then show ?thesis by (simp add: str_nat.simps [of n] is_digit_def)
  next
    case False
    have "n mod 10 < 10" by simp
    then have "is_digit (48 + n mod 10)"
      by (simp add: is_digit_def)
    with 1 False show ?thesis by (simp add: str_nat.simps [of n])
  qed
qed

lemma str_nat_nonempty: "str_nat n \<noteq> []"
  by (subst str_nat.simps) simp

lemma str_nat_value: "foldl (\<lambda>v c. v * 10 + (int c - 48)) 0 (str_nat n) = int n"
proof (induction n rule: str_nat.induct)
  case (1 n)
  show ?case
  proof (cases "n < 10")
    case True
    then show ?thesis by (simp add: str_nat.simps [of n])
  next
    case False
    have "foldl (\<lambda>v c. v * 10 + (int c - 48)) 0 (str_nat n)
          = int (n div 10) * 10 + int (n mod 10)"
      using 1 False by (simp add: str_nat.simps [of n])
    also have "\<dots> = int n" by presburger
    finally show ?thesis .
  qed
qed

lemma str_nat_length: "n < 10 ^ d \<Longrightarrow> 0 < d \<Longrightarrow> length (str_nat n) \<le> d"
proof (induction n arbitrary: d rule: str_nat.induct)
  case (1 n)
  show ?case
  proof (cases "n < 10")
    case True
    then show ?thesis using 1(3) by (simp add: str_nat.simps [of n])
  next
    case False
    obtain e where e: "d = Suc e" using 1(3) by (cases d) auto
    have "e \<noteq> 0" using False 1(2) e by (cases e) auto
    moreover have "n div 10 < 10 ^ e" using 1(2) e by (simp add: less_mult_imp_div_less mult.commute)
    ultimately have "length (str_nat (n div 10)) \<le> e" using 1(1) [of e] False by simp
    then show ?thesis using False e by (simp add: str_nat.simps [of n])
  qed
qed

lemma digits_value_bound:
  "digits_value acc ds = Some v \<Longrightarrow> 0 \<le> acc \<Longrightarrow>
   0 \<le> v \<and> v < (acc + 1) * 10 ^ length (filter is_digit ds)"
proof (induction acc ds arbitrary: v rule: digits_value.induct)
  case (1 acc)
  then show ?case by simp
next
  case (2 acc c)
  then show ?case by (auto simp: is_digit_def split: if_splits)
next
  case (3 acc c d r)
  from 3(3) have c: "is_digit c" by (auto split: if_splits)
  define acc' where "acc' = acc * 10 + (int c - 48)"
  have a0: "0 \<le> acc'" and a1: "acc' + 1 \<le> (acc + 1) * 10"
    using c 3(4) by (auto simp: acc'_def is_digit_def)
  show ?case
  proof (cases "d = 95")
    case True
    with 3(3) c obtain e r' where r: "r = e # r'" and e: "is_digit e"
      and dv: "digits_value acc' r = Some v"
      by (auto simp: acc'_def split: list.splits if_splits)
    have "0 \<le> v \<and> v < (acc' + 1) * 10 ^ length (filter is_digit r)"
      using 3(1) [OF c True r e] dv a0 by (simp add: acc'_def)
    moreover have "(acc' + 1) * 10 ^ length (filter is_digit r)
                   \<le> ((acc + 1) * 10) * 10 ^ length (filter is_digit r)"
      using a1 by (intro mult_right_mono) auto
    moreover have "length (filter is_digit (c # d # r)) = Suc (length (filter is_digit r))"
      using c True by (simp add: is_digit_def)
    ultimately show ?thesis by (simp add: algebra_simps)
  next
    case False
    with 3(3) c have dv: "digits_value acc' (d # r) = Some v"
      by (auto simp: acc'_def split: if_splits)
    have "0 \<le> v \<and> v < (acc' + 1) * 10 ^ length (filter is_digit (d # r))"
      using 3(2) [OF c False] dv a0 by (simp add: acc'_def)
    moreover have "(acc' + 1) * 10 ^ length (filter is_digit (d # r))
                   \<le> ((acc + 1) * 10) * 10 ^ length (filter is_digit (d # r))"
      using a1 by (intro mult_right_mono) auto
    moreover have "length (filter is_digit (c # d # r)) = Suc (length (filter is_digit (d # r)))"
      using c by simp
    ultimately show ?thesis by (simp add: algebra_simps)
  qed
qed

lemma digits_value_first: "digits_value acc (c # r) = Some v \<Longrightarrow> is_digit c"
  by (cases r) (auto split: if_splits)

lemma parse_digits_within:
  assumes "parse_digits U ds = Some v"
  shows "0 \<le> v \<and> within_limit U v"
proof -
  from assms have ne: "ds \<noteq> []"
    and lim: "\<not> (0 < u_max_str_digits U \<and> u_max_str_digits U < length (filter is_digit ds))"
    and dv: "digits_value 0 ds = Some v"
    by (auto simp: parse_digits_def split: if_splits)
  obtain c r where cr: "ds = c # r" using ne by (cases ds) auto
  have "is_digit c" using dv cr digits_value_first by blast
  then have pos: "0 < length (filter is_digit ds)" using cr by simp
  have b: "0 \<le> v \<and> v < 10 ^ length (filter is_digit ds)"
    using digits_value_bound [OF dv] by simp
  then have "nat \<bar>v\<bar> < 10 ^ length (filter is_digit ds)"
    by (simp add: nat_less_iff)
  then have "length (str_nat (nat \<bar>v\<bar>)) \<le> length (filter is_digit ds)"
    using pos by (rule str_nat_length)
  with lim b show ?thesis by (auto simp: within_limit_def)
qed

lemma py_int_within: "py_int U s = Some a \<Longrightarrow> within_limit U a"
  by (auto simp: py_int_def within_limit_def split: list.splits if_splits
      dest!: parse_digits_within)

lemma parse_digits_str_nat:
  "within_limit U (int n) \<Longrightarrow> parse_digits U (str_nat n) = Some (int n)"
proof -
  assume w: "within_limit U (int n)"
  have "filter is_digit (str_nat n) = str_nat n"
    using str_nat_digits [of n] by (simp add: list_all_iff)
  then show ?thesis using w
    by (simp add: parse_digits_def within_limit_def str_nat_nonempty digits_value_foldl
        str_nat_digits str_nat_value)
qed

lemma dropWhile_none: "\<forall>c \<in> set s. \<not> P c \<Longrightarrow> dropWhile P s = s"
  by (cases s) auto

lemma str_int_chars: "c \<in> set (str_int a) \<Longrightarrow> is_digit c \<or> c = 45"
  using str_nat_digits by (auto simp: str_int_def list_all_iff split: if_splits)

lemma ascii_str_int: "ascii_str (str_int a)"
proof -
  have "c < 128" if "c \<in> set (str_int a)" for c
    using str_int_chars [OF that] by (auto simp: is_digit_def)
  then show ?thesis by (simp add: ascii_str_def list_all_iff)
qed

lemma c_strip_str_int: "c_strip (str_int a) = str_int a"
proof -
  have "\<not> c_isspace c" if "c \<in> set (str_int a)" for c
    using str_int_chars [OF that] by (auto simp: is_digit_def c_isspace_def)
  then show ?thesis by (simp add: c_strip_def dropWhile_none)
qed

lemma strip_str_int: "strip U (str_int a) = str_int a"
proof -
  have "\<not> is_space U c" if "c \<in> set (str_int a)" for c
    using str_int_chars [OF that] by (auto simp: is_digit_def is_space_def)
  then show ?thesis by (simp add: strip_def lstrip_def rstrip_def dropWhile_none)
qed

text \<open>Parsing what \<open>str\<close> printed gives the number back.\<close>

lemma py_int_str_int:
  assumes w: "within_limit U a"
  shows "py_int U (str_int a) = Some a"
proof (cases "a < 0")
  case True
  have "within_limit U (int (nat (- a)))" using w True by (simp add: within_limit_def)
  then have "parse_digits U (str_nat (nat (- a))) = Some (int (nat (- a)))"
    by (rule parse_digits_str_nat)
  then show ?thesis using True c_strip_str_int [of a] ascii_str_int [of a]
    by (simp add: py_int_def to_ascii_digits_def str_int_def)
next
  case False
  obtain c r where cr: "str_nat (nat a) = c # r"
    using str_nat_nonempty [of "nat a"] by (cases "str_nat (nat a)") auto
  have "is_digit c" using str_nat_digits [of "nat a"] cr by simp
  then have c: "c \<noteq> 45" "c \<noteq> 43" by (auto simp: is_digit_def)
  have "within_limit U (int (nat a))" using w False by (simp add: within_limit_def)
  then have "parse_digits U (str_nat (nat a)) = Some (int (nat a))"
    by (rule parse_digits_str_nat)
  then show ?thesis using c_strip_str_int [of a] ascii_str_int [of a] False cr c
    by (simp add: py_int_def to_ascii_digits_def str_int_def)
qed

lemma split_comma_str_int:
  "split_comma (str_int a @ 44 # str_int b) = (str_int a, str_int b)"
proof -
  have "\<forall>c \<in> set (str_int a). c \<noteq> 44"
    using str_int_chars [of 44 a] by (auto simp: is_digit_def)
  then show ?thesis
    by (simp add: split_comma_def takeWhile_append2 dropWhile_append2 takeWhile_tail dropWhile_append3)
qed

lemma py_eq_iff [simp]: "(py a = py b) = (a = b)"
  by (auto simp: py_def inj_on_def intro!: inj_on_mapI [THEN inj_onD, of of_char])

section \<open>Properties of the search engine\<close>

lemma normalize_names:
  "normalize_method U (py ''affine'') = py ''affine''"
  "normalize_method U (py ''simple_substitution'') = py ''simplesubstitution''"
  "normalize_method U (py ''reverse'') = py ''reverse''"
  "normalize_method U (py ''rot13'') = py ''rot13''"
  "normalize_method U (py ''atbash'') = py ''atbash''"
  "normalize_method U (py ''caesar'') = py ''caesar''"
  by (simp_all add: normalize_method_def str_lower_def ascii_str_def py_def lower_char_def
      is_upper_def remove_char_def)

lemma pool_numbers_within: "a \<in> set (pool_numbers U kws) \<Longrightarrow> within_limit U a"
  by (auto simp: pool_numbers_def map_filter_def dest: py_int_within)

lemma affine_combination_valid:
  assumes "k \<in> set (generate_affine_combinations U kws)"
  shows "is_valid_keyword_for_cipher U k (py ''affine'')"
proof -
  from assms obtain a b where a: "a \<in> set (pool_numbers U kws)" and b: "b \<in> set (pool_numbers U kws)"
    and g: "gcd_py \<bar>a\<bar> 26 = 1" and k: "k = str_int a @ 44 # str_int b"
    by (auto simp: generate_affine_combinations_def Let_def py_def split: if_splits)
  have pa: "py_int U (str_int a) = Some a" and pb: "py_int U (str_int b) = Some b"
    using a b by (simp_all add: py_int_str_int pool_numbers_within)
  have g': "gcd_py a 26 = 1" using g by (simp add: gcd_py_26)
  have n: "normalize_method U (py ''affine'') \<notin> set (map py [''reverse'', ''rot13'', ''atbash''])"
    "normalize_method U (py ''affine'') \<noteq> py ''caesar''"
    "normalize_method U (py ''affine'') \<notin> set (map py [''railfence'', ''zigzag''])"
    by (simp_all add: normalize_names)
  show ?thesis
    unfolding is_valid_keyword_for_cipher_def Let_def
    using n by (simp add: normalize_names k split_comma_str_int strip_str_int pa pb g')
qed

lemma substitution_alphabet_valid:
  "k \<in> set (generate_substitution_alphabet U kws) \<Longrightarrow>
   is_valid_keyword_for_cipher U k (py ''simple_substitution'')"
  by (simp add: generate_substitution_alphabet_def is_valid_keyword_for_cipher_def Let_def
      normalize_names)

lemma keyword_free_valid:
  "is_valid_keyword_for_cipher U [] (py ''reverse'')"
  "is_valid_keyword_for_cipher U [] (py ''rot13'')"
  "is_valid_keyword_for_cipher U [] (py ''atbash'')"
  by (simp_all add: is_valid_keyword_for_cipher_def Let_def normalize_names)

lemma run_attempt_tested:
  "tested_pairs (run_attempt U coin c k m st) = insert (k, m) (tested_pairs st)"
  by (simp add: run_attempt_def Let_def)

lemma try_generated_mono:
  "tested_pairs st \<subseteq> tested_pairs (try_generated U coin c m k st)"
  by (auto simp: try_generated_def run_attempt_tested Let_def)

lemma try_keyword_mono:
  "tested_pairs st \<subseteq> tested_pairs (try_keyword U coin c m k st)"
  by (auto simp: try_keyword_def run_attempt_tested Let_def)

lemma fold_mono:
  assumes "\<And>x s. tested_pairs s \<subseteq> tested_pairs (f x s)"
  shows "tested_pairs st \<subseteq> tested_pairs (fold f xs st)"
proof (induction xs arbitrary: st)
  case Nil
  show ?case by simp
next
  case (Cons x xs)
  have "tested_pairs st \<subseteq> tested_pairs (f x st)" by (rule assms)
  also have "\<dots> \<subseteq> tested_pairs (fold f xs (f x st))" by (rule Cons.IH)
  finally show ?case by simp
qed

lemma run_cipher_method_mono:
  "tested_pairs st \<subseteq> tested_pairs (run_cipher_method U coin c kws m st)"
  unfolding run_cipher_method_def
  by (simp only: if_distrib [of tested_pairs] split: if_split)
     (intro conjI impI try_generated_mono fold_mono try_keyword_mono)

lemma run_mono:
  "tested \<subseteq> tested_pairs (run_comprehensive_decryption_tests U coin c kin tested)"
proof -
  have "tested_pairs (initial_state tested) \<subseteq>
        tested_pairs (fold (run_cipher_method U coin c kws) cipher_methods (initial_state tested))" for kws
    by (rule fold_mono) (rule run_cipher_method_mono)
  then show ?thesis
    by (simp add: run_comprehensive_decryption_tests_def Let_def initial_state_def)
qed

text \<open>
  C9. The set of tested pairs only grows: a pair handed to the run is still in the set
  at its end, no step of the engine (a cipher method, a pool entry, a generated
  candidate) removes a pair, and adding a pair that is already in the set, as a second
  attempt of the same pair would, leaves the set as it is.
\<close>

theorem tested_set_only_grows:
  "tested \<subseteq> tested_pairs (run_comprehensive_decryption_tests U coin c kin tested)
   \<and> tested_pairs st \<subseteq> tested_pairs (run_cipher_method U coin c kws m st)
   \<and> tested_pairs st \<subseteq> tested_pairs (try_keyword U coin c m k st)
   \<and> tested_pairs st \<subseteq> tested_pairs (try_generated U coin c m k st)
   \<and> tested_pairs (run_attempt U coin c k m (run_attempt U coin c k m st))
       = tested_pairs (run_attempt U coin c k m st)"
  by (simp add: run_mono run_cipher_method_mono try_keyword_mono try_generated_mono
      run_attempt_tested)

lemma try_keyword_skip:
  "(k, m) \<in> tested_pairs st \<Longrightarrow>
   displayed (try_keyword U coin c m k st) = displayed st
   \<and> skipped (try_keyword U coin c m k st) = skipped st + 1
   \<and> tested_pairs (try_keyword U coin c m k st) = tested_pairs st"
  by (simp add: try_keyword_def skipped_def)

lemma try_generated_skip:
  "(k, m) \<in> tested_pairs st \<Longrightarrow>
   displayed (try_generated U coin c m k st) = displayed st
   \<and> skipped (try_generated U coin c m k st) = skipped st + 1
   \<and> tested_pairs (try_generated U coin c m k st) = tested_pairs st"
  by (simp add: try_generated_def skipped_def)

lemma try_keyword_invalid:
  "(k, m) \<notin> tested_pairs st \<Longrightarrow> \<not> is_valid_keyword_for_cipher U k m \<Longrightarrow>
   displayed (try_keyword U coin c m k st) = displayed st
   \<and> tested_pairs (try_keyword U coin c m k st) = insert (k, m) (tested_pairs st)"
  by (simp add: try_keyword_def)

lemma try_keyword_dispatch:
  "(k, m) \<notin> tested_pairs st \<Longrightarrow> is_valid_keyword_for_cipher U k m \<Longrightarrow>
   (\<exists>flag. displayed (try_keyword U coin c m k st)
            = displayed st @ [(k, apply_cipher U c k m, flag, m)])
   \<and> tested_pairs (try_keyword U coin c m k st) = insert (k, m) (tested_pairs st)
   \<and> skipped (try_keyword U coin c m k st) = skipped st"
  by (simp add: try_keyword_def run_attempt_def Let_def skipped_def)

lemma try_generated_dispatch:
  "(k, m) \<notin> tested_pairs st \<Longrightarrow>
   (\<exists>flag. displayed (try_generated U coin c m k st)
            = displayed st @ [(k, apply_cipher U c k m, flag, m)])
   \<and> tested_pairs (try_generated U coin c m k st) = insert (k, m) (tested_pairs st)
   \<and> skipped (try_generated U coin c m k st) = skipped st"
  by (simp add: try_generated_def run_attempt_def Let_def skipped_def)

lemma caesar_pass_13:
  "(py ''13'', py ''caesar'') \<in> tested_pairs st \<Longrightarrow>
   displayed (run_cipher_method U coin c [py ''13''] (py ''caesar'') st) = displayed st
   \<and> new_tests (run_cipher_method U coin c [py ''13''] (py ''caesar'') st) = new_tests st
   \<and> skipped (run_cipher_method U coin c [py ''13''] (py ''caesar'') st) = skipped st + 1"
  by (simp add: run_cipher_method_def try_keyword_def skipped_def)

text \<open>A valid generated candidate is handled as a pool entry is.\<close>

lemma try_generated_eq:
  "is_valid_keyword_for_cipher U k m \<Longrightarrow>
   try_generated U coin c m k st = try_keyword U coin c m k st"
  by (simp add: try_generated_def try_keyword_def Let_def)

lemma fold_try_generated_eq:
  "\<forall>k \<in> set ks. is_valid_keyword_for_cipher U k m \<Longrightarrow>
   fold (try_generated U coin c m) ks st = fold (try_keyword U coin c m) ks st"
  by (induction ks arbitrary: st) (simp_all add: try_generated_eq)

lemma run_cipher_method_candidates:
  "run_cipher_method U coin c kws m st
   = fold (try_keyword U coin c m) (candidate_keys U kws m) st"
proof -
  have kf: "try_generated U coin c m [] st = try_keyword U coin c m [] st"
    if "m \<in> set (map py [''reverse'', ''rot13'', ''atbash''])"
    using that keyword_free_valid [of U] by (auto simp: try_generated_eq)
  show ?thesis
    unfolding run_cipher_method_def candidate_keys_def
    using kf fold_try_generated_eq [of "generate_affine_combinations U kws" U "py ''affine''"]
      fold_try_generated_eq [of "generate_substitution_alphabet U kws" U "py ''simple_substitution''"]
      affine_combination_valid [of _ U kws] substitution_alphabet_valid [of _ U kws]
    by auto
qed

lemma fold_methods:
  "fold (\<lambda>m. fold (try_keyword U coin c m) (f m)) ms st
   = fold (step U coin c) (concat (map (\<lambda>m. map (\<lambda>k. (k, m)) (f m)) ms)) st"
proof (induction ms arbitrary: st)
  case Nil
  show ?case by simp
next
  case (Cons m ms)
  have "fold (step U coin c) (map (\<lambda>k. (k, m)) ks) s = fold (try_keyword U coin c m) ks s" for ks s
    by (induction ks arbitrary: s) (simp_all add: step_def)
  then show ?case using Cons by simp
qed

lemma run_as_fold:
  "fold (run_cipher_method U coin c kws) cipher_methods st
   = fold (step U coin c) (all_candidates U kws) st"
proof -
  have "run_cipher_method U coin c kws = (\<lambda>m. fold (try_keyword U coin c m) (candidate_keys U kws m))"
    by (intro ext) (rule run_cipher_method_candidates)
  then show ?thesis by (simp add: all_candidates_def fold_methods)
qed

lemma fold_step:
  "map outcome_key (displayed (fold (step U coin c) ps st))
     = map outcome_key (displayed st)
       @ map (\<lambda>(k, m). (k, apply_cipher U c k m, m)) (attempted U (tested_pairs st) ps)
   \<and> tested_pairs (fold (step U coin c) ps st) = tested_pairs st \<union> set ps
   \<and> total_tests (fold (step U coin c) ps st) = total_tests st + length ps
   \<and> new_tests (fold (step U coin c) ps st)
       = new_tests st + length (attempted U (tested_pairs st) ps)"
proof (induction ps arbitrary: st)
  case Nil
  show ?case by (simp add: attempted_def)
next
  case (Cons p ps)
  obtain k m where p: "p = (k, m)" by (cases p)
  consider (old) "(k, m) \<in> tested_pairs st"
    | (bad) "(k, m) \<notin> tested_pairs st" "\<not> is_valid_keyword_for_cipher U k m"
    | (new) "(k, m) \<notin> tested_pairs st" "is_valid_keyword_for_cipher U k m"
    by blast
  then show ?case
  proof cases
    case old
    then have s: "step U coin c (k, m) st = st\<lparr>total_tests := total_tests st + 1\<rparr>"
      by (simp add: step_def try_keyword_def)
    show ?thesis using Cons.IH [of "step U coin c (k, m) st"] old
      by (auto simp: s p attempted_def)
  next
    case bad
    then have s: "step U coin c (k, m) st
                  = st\<lparr>tested_pairs := insert (k, m) (tested_pairs st),
                        total_tests := total_tests st + 1\<rparr>"
      by (simp add: step_def try_keyword_def)
    show ?thesis using Cons.IH [of "step U coin c (k, m) st"] bad
      by (auto simp: s p attempted_def)
  next
    case new
    then have s: "step U coin c (k, m) st
                  = (run_attempt U coin c k m st)\<lparr>total_tests := total_tests st + 1\<rparr>"
      by (simp add: step_def try_keyword_def Let_def run_attempt_def)
    show ?thesis using Cons.IH [of "step U coin c (k, m) st"] new
      by (auto simp: s p attempted_def run_attempt_def Let_def outcome_key_def)
  qed
qed

lemma whole_run:
  assumes "parse_keywords U (join_with (py '','') kin) = kws" "kws \<noteq> []"
  shows "map outcome_key (displayed (run_comprehensive_decryption_tests U coin c kin tested))
           = map (\<lambda>(k, m). (k, apply_cipher U c k m, m))
               (attempted U tested (all_candidates U kws))
         \<and> tested_pairs (run_comprehensive_decryption_tests U coin c kin tested)
           = tested \<union> set (all_candidates U kws)
         \<and> total_tests (run_comprehensive_decryption_tests U coin c kin tested)
           = length (all_candidates U kws)
         \<and> new_tests (run_comprehensive_decryption_tests U coin c kin tested)
           = length (attempted U tested (all_candidates U kws))"
proof -
  have r: "run_comprehensive_decryption_tests U coin c kin tested
           = fold (step U coin c) (all_candidates U kws) (initial_state tested)"
    using assms by (simp add: run_comprehensive_decryption_tests_def Let_def run_as_fold)
  have i: "tested_pairs (initial_state tested) = tested" "displayed (initial_state tested) = []"
    "total_tests (initial_state tested) = 0" "new_tests (initial_state tested) = 0"
    by (simp_all add: initial_state_def)
  show ?thesis
    using fold_step [of U coin c "all_candidates U kws" "initial_state tested"]
    unfolding r i by simp
qed

lemma empty_run:
  "parse_keywords U (join_with (py '','') kin) = [] \<Longrightarrow>
   run_comprehensive_decryption_tests U coin c kin tested = initial_state tested"
  by (simp add: run_comprehensive_decryption_tests_def)

text \<open>
  C4. The whole run, for a pool that is not empty after parsing: the candidates are those
  of \<open>all_candidates\<close>, method by method; the outcomes displayed are, in order, one for
  each candidate that was not in the tested set when its turn came (neither handed in nor
  met earlier in the run) and passes \<open>is_valid_keyword_for_cipher\<close>, holding the text
  \<open>apply_cipher\<close> returned; every candidate is in the tested set at the end; the total
  counts every candidate and the number of new tests is the number of outcomes. A pool
  that is empty after parsing leaves the state as it was.

  Step by step, a candidate key is handled in one of three ways. A pair already in the
  tested set is skipped: no outcome is displayed, the set is unchanged and the skipped
  tally (total minus new) grows by one, for a pool entry and for a generated candidate
  alike. A pool entry that is not in the set and fails \<open>is_valid_keyword_for_cipher\<close> is
  added to the set and displays no outcome. Any other candidate is dispatched through
  \<open>apply_cipher\<close>, displays exactly one outcome, is added to the set and leaves the
  skipped tally as it was; the generated candidates (the empty key of a keyword-free
  cipher, the affine combinations, the substitution alphabets) are dispatched without the
  validity check, and every one of them passes it, so that each pass of
  \<open>run_cipher_method\<close> is the loop of \<open>try_keyword\<close> over the candidates of the method.
  With \<open>("13", "caesar")\<close> in the set and the pool \<open>["13"]\<close>, the Caesar pass displays
  no new outcome, runs no new test and adds exactly one to the skipped tally.
\<close>

theorem engine_candidate_cases:
  "(parse_keywords U (join_with (py '','') kin) = kws \<and> kws \<noteq> [] \<longrightarrow>
      map outcome_key (displayed (run_comprehensive_decryption_tests U coin c kin tested))
        = map (\<lambda>(k, m). (k, apply_cipher U c k m, m))
            (attempted U tested (all_candidates U kws))
      \<and> tested_pairs (run_comprehensive_decryption_tests U coin c kin tested)
        = tested \<union> set (all_candidates U kws)
      \<and> total_tests (run_comprehensive_decryption_tests U coin c kin tested)
        = length (all_candidates U kws)
      \<and> new_tests (run_comprehensive_decryption_tests U coin c kin tested)
        = length (attempted U tested (all_candidates U kws)))
   \<and> (parse_keywords U (join_with (py '','') kin) = [] \<longrightarrow>
      run_comprehensive_decryption_tests U coin c kin tested = initial_state tested)
   \<and> run_cipher_method U coin c kws m st
        = fold (try_keyword U coin c m) (candidate_keys U kws m) st
   \<and> ((k, m) \<in> tested_pairs st \<longrightarrow>
      displayed (try_keyword U coin c m k st) = displayed st
      \<and> skipped (try_keyword U coin c m k st) = skipped st + 1
      \<and> tested_pairs (try_keyword U coin c m k st) = tested_pairs st
      \<and> displayed (try_generated U coin c m k st) = displayed st
      \<and> skipped (try_generated U coin c m k st) = skipped st + 1
      \<and> tested_pairs (try_generated U coin c m k st) = tested_pairs st)
   \<and> ((k, m) \<notin> tested_pairs st \<and> \<not> is_valid_keyword_for_cipher U k m \<longrightarrow>
      displayed (try_keyword U coin c m k st) = displayed st
      \<and> tested_pairs (try_keyword U coin c m k st) = insert (k, m) (tested_pairs st))
   \<and> ((k, m) \<notin> tested_pairs st \<and> is_valid_keyword_for_cipher U k m \<longrightarrow>
      (\<exists>flag. displayed (try_keyword U coin c m k st)
               = displayed st @ [(k, apply_cipher U c k m, flag, m)])
      \<and> tested_pairs (try_keyword U coin c m k st) = insert (k, m) (tested_pairs st)
      \<and> skipped (try_keyword U coin c m k st) = skipped st)
   \<and> ((k, m) \<notin> tested_pairs st \<longrightarrow>
      (\<exists>flag. displayed (try_generated U coin c m k st)
               = displayed st @ [(k, apply_cipher U c k m, flag, m)])
      \<and> tested_pairs (try_generated U coin c m k st) = insert (k, m) (tested_pairs st)
      \<and> skipped (try_generated U coin c m k st) = skipped st)
   \<and> (\<forall>k' \<in> set (generate_affine_combinations U kws).
         is_valid_keyword_for_cipher U k' (py ''affine''))
   \<and> (\<forall>k' \<in> set (generate_substitution_alphabet U kws).
         is_valid_keyword_for_cipher U k' (py ''simple_substitution''))
   \<and> is_valid_keyword_for_cipher U [] (py ''reverse'')
   \<and> is_valid_keyword_for_cipher U [] (py ''rot13'')
   \<and> is_valid_keyword_for_cipher U [] (py ''atbash'')
   \<and> ((py ''13'', py ''caesar'') \<in> tested_pairs st \<longrightarrow>
      displayed (run_cipher_method U coin c [py ''13''] (py ''caesar'') st) = displayed st
      \<and> new_tests (run_cipher_method U coin c [py ''13''] (py ''caesar'') st) = new_tests st
      \<and> skipped (run_cipher_method U coin c [py ''13''] (py ''caesar'') st) = skipped st + 1)"
proof (intro conjI impI ballI run_cipher_method_candidates)
qed (simp_all add: try_keyword_skip try_generated_skip try_keyword_invalid try_keyword_dispatch
      try_generated_dispatch caesar_pass_13 affine_combination_valid
      substitution_alphabet_valid keyword_free_valid whole_run empty_run)

section \<open>Properties of the key generators\<close>

lemma concat_map_if_filter:
  "concat (map (\<lambda>a. if P a then f a else []) xs) = concat (map f (filter P xs))"
  by (induction xs) auto

lemma py_int_small:
  "py_int U (py ''3'') = Some 3" "py_int U (py ''7'') = Some 7" "py_int U (py ''-1'') = Some (- 1)"
proof -
  have s: "str_int 3 = py ''3''" "str_int 7 = py ''7''" "str_int (- 1) = py ''-1''"
    by code_simp+
  have w: "within_limit U 3" "within_limit U 7" "within_limit U (- 1)"
    by (auto simp: within_limit_def str_nat.simps)
  show "py_int U (py ''3'') = Some 3" "py_int U (py ''7'') = Some 7"
    "py_int U (py ''-1'') = Some (- 1)"
    using py_int_str_int [OF w(1)] py_int_str_int [OF w(2)] py_int_str_int [OF w(3)]
    by (simp_all only: s)
qed

lemma affine_example:
  "generate_affine_combinations U (map py [''3'', ''7'', ''-1''])
     = map py [''3,3'', ''3,7'', ''3,-1'', ''7,3'', ''7,7'', ''7,-1'', ''-1,3'', ''-1,7'', ''-1,-1'']"
proof -
  have s: "str_int 3 = py ''3''" "str_int 7 = py ''7''" "str_int (- 1) = py ''-1''"
    by code_simp+
  have g: "gcd_py 3 26 = 1" "gcd_py 7 26 = 1" "gcd_py 1 26 = 1" by code_simp+
  show ?thesis
    by (simp add: generate_affine_combinations_def Let_def pool_numbers_def map_filter_def
        py_int_small g s) (simp add: py_def)
qed

text \<open>
  C8. \<open>generate_affine_combinations\<close> parses every pool entry with \<open>int\<close>, drops the
  entries that do not parse, and returns, in pool order with \<open>a\<close> outer and \<open>b\<close> inner,
  the string \<open>a,b\<close> for every parsed \<open>a\<close> coprime to 26 and every parsed \<open>b\<close>, the pair
  of an entry with itself included. For the pool \<open>["3", "7", "-1"]\<close> this is the nine
  combinations of 3, 7 and -1, among them \<open>7,3\<close>, \<open>7,7\<close> and \<open>7,-1\<close>.
\<close>

theorem generate_affine_combinations_exact:
  "generate_affine_combinations U pool =
     concat (map (\<lambda>a. map (\<lambda>b. str_int a @ py '','' @ str_int b) (List.map_filter (py_int U) pool))
               (filter (\<lambda>a. coprime a 26) (List.map_filter (py_int U) pool)))
   \<and> generate_affine_combinations U (map py [''3'', ''7'', ''-1''])
     = map py [''3,3'', ''3,7'', ''3,-1'', ''7,3'', ''7,7'', ''7,-1'', ''-1,3'', ''-1,7'', ''-1,-1'']"
proof (intro conjI)
  show "generate_affine_combinations U pool =
     concat (map (\<lambda>a. map (\<lambda>b. str_int a @ py '','' @ str_int b) (List.map_filter (py_int U) pool))
               (filter (\<lambda>a. coprime a 26) (List.map_filter (py_int U) pool)))"
    by (simp only: generate_affine_combinations_def Let_def pool_numbers_def
        concat_map_if_filter gcd_py_abs_26)
  show "generate_affine_combinations U (map py [''3'', ''7'', ''-1''])
     = map py [''3,3'', ''3,7'', ''3,-1'', ''7,3'', ''7,7'', ''7,-1'', ''-1,3'', ''-1,7'', ''-1,-1'']"
    by (rule affine_example)
qed

theorem engine_candidate_cases_witness:
  "parse_keywords latin1_tables (join_with (py '','') [py ''13'']) = [py ''13'']
   \<and> tested_pairs (run_comprehensive_decryption_tests latin1_tables (\<lambda>_. False) (py ''ab'')
         [py ''13''] {(py ''13'', py ''caesar'')})
       = {(py ''13'', py ''caesar'')} \<union> set (all_candidates latin1_tables [py ''13''])
   \<and> map outcome_key (displayed (run_comprehensive_decryption_tests latin1_tables (\<lambda>_. False)
         (py ''ab'') [py ''13''] {(py ''13'', py ''caesar'')}))
       = map (\<lambda>(k, m). (k, apply_cipher latin1_tables (py ''ab'') k m, m))
           (attempted latin1_tables {(py ''13'', py ''caesar'')}
              (all_candidates latin1_tables [py ''13'']))
   \<and> total_tests (run_comprehensive_decryption_tests latin1_tables (\<lambda>_. False) (py ''ab'')
         [py ''13''] {(py ''13'', py ''caesar'')})
       = length (all_candidates latin1_tables [py ''13''])
   \<and> run_comprehensive_decryption_tests latin1_tables (\<lambda>_. False) (py ''ab'') [] {}
       = initial_state {}
   \<and> displayed (try_keyword latin1_tables (\<lambda>_. False) (py ''ab'') (py ''caesar'') (py ''13'')
       (initial_state {(py ''13'', py ''caesar'')})) = []
   \<and> skipped (try_keyword latin1_tables (\<lambda>_. False) (py ''ab'') (py ''caesar'') (py ''13'')
       (initial_state {(py ''13'', py ''caesar'')})) = 1
   \<and> displayed (run_cipher_method latin1_tables (\<lambda>_. False) (py ''ab'') [py ''13''] (py ''caesar'')
       (initial_state {(py ''13'', py ''caesar'')})) = []
   \<and> skipped (run_cipher_method latin1_tables (\<lambda>_. False) (py ''ab'') [py ''13''] (py ''caesar'')
       (initial_state {(py ''13'', py ''caesar'')})) = 1
   \<and> displayed (try_keyword latin1_tables (\<lambda>_. False) (py ''ab'') (py ''caesar'') (py ''x'')
       (initial_state {})) = []
   \<and> tested_pairs (try_keyword latin1_tables (\<lambda>_. False) (py ''ab'') (py ''caesar'') (py ''x'')
       (initial_state {})) = {(py ''x'', py ''caesar'')}
   \<and> (\<exists>flag. displayed (try_keyword latin1_tables (\<lambda>_. False) (py ''ab'') (py ''caesar'') (py ''1'')
         (initial_state {}))
         = [(py ''1'', apply_cipher latin1_tables (py ''ab'') (py ''1'') (py ''caesar''), flag,
             py ''caesar'')])
   \<and> tested_pairs (try_keyword latin1_tables (\<lambda>_. False) (py ''ab'') (py ''caesar'') (py ''1'')
       (initial_state {})) = {(py ''1'', py ''caesar'')}"
proof -
  have pk: "parse_keywords latin1_tables (join_with (py '','') [py ''13'']) = [py ''13'']"
    by code_simp
  have pe: "parse_keywords latin1_tables (join_with (py '','') []) = []"
    by code_simp
  have inv: "\<not> is_valid_keyword_for_cipher latin1_tables (py ''x'') (py ''caesar'')" by code_simp
  have val: "is_valid_keyword_for_cipher latin1_tables (py ''1'') (py ''caesar'')" by code_simp
  have i0: "tested_pairs (initial_state {}) = {}" "displayed (initial_state {}) = []"
    by (simp_all add: initial_state_def)
  have i1: "tested_pairs (initial_state {(py ''13'', py ''caesar'')}) = {(py ''13'', py ''caesar'')}"
    "displayed (initial_state {(py ''13'', py ''caesar'')}) = []"
    "skipped (initial_state {(py ''13'', py ''caesar'')}) = 0"
    by (simp_all add: initial_state_def skipped_def)
  have ck: "candidate_keys latin1_tables [py ''13''] (py ''caesar'') = [py ''13'']"
    by (simp add: candidate_keys_def)
  show ?thesis
    using engine_candidate_cases
        [of latin1_tables "[py ''13'']" "[py ''13'']" "\<lambda>_. False" "py ''ab''"
            "{(py ''13'', py ''caesar'')}" "py ''caesar''"
            "initial_state {(py ''13'', py ''caesar'')}" "py ''13''"]
      engine_candidate_cases
        [of latin1_tables "[]" "[]" "\<lambda>_. False" "py ''ab''" "{}" "py ''caesar''"
            "initial_state {}" "py ''x''"]
      engine_candidate_cases
        [of latin1_tables "[]" "[]" "\<lambda>_. False" "py ''ab''" "{}" "py ''caesar''"
            "initial_state {}" "py ''1''"]
      inv val pk pe
    by (simp add: i0 i1 ck)
qed

section \<open>Properties of the dispatch facade\<close>


















lemma apply_cipher_CipherError:
  "c \<noteq> [] \<Longrightarrow> dispatch U c k (normalize_method U m) = Inl (CipherError msg) \<Longrightarrow>
   apply_cipher U c k m = py ''Error: '' @ msg"
  by (simp add: apply_cipher_def)

lemma apply_cipher_unexpected:
  "c \<noteq> [] \<Longrightarrow> dispatch U c k (normalize_method U m) = Inl e \<Longrightarrow> \<forall>msg. e \<noteq> CipherError msg \<Longrightarrow>
   apply_cipher U c k m = py ''Unexpected error: '' @ exn_message U e"
  by (cases e) (simp_all add: apply_cipher_def)






section \<open>Properties of the result records\<close>

lemma startswith_Error: "startswith (py ''Error: '' @ msg) (py ''Error'')"
  by (simp add: startswith_def py_def)

lemma not_startswith_Unexpected:
  "\<not> startswith (py ''Unexpected error: '' @ msg) (py ''Error'')"
  "\<not> startswith (py ''Unexpected error: '' @ msg) (py ''Error:'')"
  by (simp_all add: startswith_def py_def)

lemma substitution_record_listed:
  assumes "c \<noteq> []" "k \<in> set (generate_substitution_alphabet U (parse_keywords U ks))"
  shows "result_record_of U c (py ''simple_substitution'') k
         \<in> set (test_all_cipher_combinations U c ks)"
proof -
  have "result_record_of U c (py ''simple_substitution'') k
        \<in> set (test_cipher_method U c (parse_keywords U ks) (py ''simple_substitution''))"
    using assms(2) by (simp add: test_cipher_method_def)
  moreover have "py ''simple_substitution'' \<in> set cipher_methods"
    by (simp add: cipher_methods_def)
  ultimately show ?thesis
    using assms(1) by (auto simp: test_all_cipher_combinations_def)
qed

text \<open>
  C6. A record of \<open>test_all_cipher_combinations\<close> gets its status from the test
  \<open>result.startswith('Error')\<close>, with two values only. An exception of a transform that is
  not a \<open>CipherError\<close> comes back from \<open>apply_cipher\<close> as \<open>Unexpected error: ...\<close>, which
  does not start with \<open>Error\<close>: the record of such a fault has the status \<open>Success\<close>, and
  the application displays and saves it as it does a decryption. A substitution alphabet
  of the pool reaches this record through \<open>test_all_cipher_combinations\<close>. A
  \<open>CipherError\<close> is recorded with the status \<open>Error\<close> and the text \<open>Error: \<close> followed by
  its message, in a record of the same four fields.
\<close>

theorem unexpected_fault_recorded_success:
  "(c \<noteq> [] \<and> dispatch U c k (normalize_method U m) = Inl e \<and> (\<forall>msg'. e \<noteq> CipherError msg') \<longrightarrow>
      result_record_of U c m k =
        [(py ''keyword'', k), (py ''cipher'', m), (py ''status'', py ''Success''),
         (py ''result'', py ''Unexpected error: '' @ exn_message U e)]
      \<and> displayed (run_attempt U coin c k m st)
          = displayed st @ [(k, py ''Unexpected error: '' @ exn_message U e, coin (draws st), m)]
      \<and> saved (run_attempt U coin c k m st)
          = saved st @ [(k, py ''Unexpected error: '' @ exn_message U e, coin (draws st), m)])
   \<and> (c \<noteq> [] \<and> k \<in> set (generate_substitution_alphabet U (parse_keywords U ks)) \<longrightarrow>
      result_record_of U c (py ''simple_substitution'') k
        \<in> set (test_all_cipher_combinations U c ks))
   \<and> (c \<noteq> [] \<and> dispatch U c k (normalize_method U m) = Inl (CipherError msg) \<longrightarrow>
      result_record_of U c m k =
        [(py ''keyword'', k), (py ''cipher'', m), (py ''status'', py ''Error''),
         (py ''result'', py ''Error: '' @ msg)])"
proof (intro conjI impI)
  assume a: "c \<noteq> [] \<and> dispatch U c k (normalize_method U m) = Inl e \<and> (\<forall>msg'. e \<noteq> CipherError msg')"
  then have r: "apply_cipher U c k m = py ''Unexpected error: '' @ exn_message U e"
    by (simp add: apply_cipher_unexpected)
  show "result_record_of U c m k =
        [(py ''keyword'', k), (py ''cipher'', m), (py ''status'', py ''Success''),
         (py ''result'', py ''Unexpected error: '' @ exn_message U e)]"
    using not_startswith_Unexpected(1) [of "exn_message U e"]
    by (simp add: result_record_of_def Let_def r)
  show "displayed (run_attempt U coin c k m st)
          = displayed st @ [(k, py ''Unexpected error: '' @ exn_message U e, coin (draws st), m)]"
    using not_startswith_Unexpected(2) [of "exn_message U e"]
    by (simp add: run_attempt_def Let_def r)
  show "saved (run_attempt U coin c k m st)
          = saved st @ [(k, py ''Unexpected error: '' @ exn_message U e, coin (draws st), m)]"
    using not_startswith_Unexpected(2) [of "exn_message U e"]
    by (simp add: run_attempt_def Let_def r)
next
  assume "c \<noteq> [] \<and> k \<in> set (generate_substitution_alphabet U (parse_keywords U ks))"
  then show "result_record_of U c (py ''simple_substitution'') k
        \<in> set (test_all_cipher_combinations U c ks)"
    by (simp add: substitution_record_listed)
next
  assume "c \<noteq> [] \<and> dispatch U c k (normalize_method U m) = Inl (CipherError msg)"
  then have "apply_cipher U c k m = py ''Error: '' @ msg" by (simp add: apply_cipher_CipherError)
  then show "result_record_of U c m k =
        [(py ''keyword'', k), (py ''cipher'', m), (py ''status'', py ''Error''),
         (py ''result'', py ''Error: '' @ msg)]"
    using startswith_Error [of msg] by (simp add: result_record_of_def Let_def)
qed

theorem unexpected_fault_recorded_success_witness:
  "result_record_of latin1_tables (py ''abc'') (py ''simple_substitution'')
       (py ''abcdefghijklmnopqrstuvwxy'' @ [223])
     = [(py ''keyword'', py ''abcdefghijklmnopqrstuvwxy'' @ [223]),
        (py ''cipher'', py ''simple_substitution''),
        (py ''status'', py ''Success''),
        (py ''result'', py ''Unexpected error: ''
            @ py ''the first two maketrans arguments must have equal length'')]
   \<and> [(py ''keyword'', py ''abcdefghijklmnopqrstuvwxy'' @ [223]),
        (py ''cipher'', py ''simple_substitution''),
        (py ''status'', py ''Success''),
        (py ''result'', py ''Unexpected error: ''
            @ py ''the first two maketrans arguments must have equal length'')]
     \<in> set (test_all_cipher_combinations latin1_tables (py ''abc'')
              (py ''abcdefghijklmnopqrstuvwxy'' @ [223]))
   \<and> saved (run_attempt latin1_tables (\<lambda>_. False) (py ''abc'')
        (py ''abcdefghijklmnopqrstuvwxy'' @ [223]) (py ''simple_substitution'') (initial_state {}))
     = [(py ''abcdefghijklmnopqrstuvwxy'' @ [223],
         py ''Unexpected error: '' @ py ''the first two maketrans arguments must have equal length'',
         False, py ''simple_substitution'')]
   \<and> result_record_of latin1_tables (py ''abc'') (py ''beaufort'') (py ''k1'')
     = [(py ''keyword'', py ''k1''), (py ''cipher'', py ''beaufort''), (py ''status'', py ''Error''),
        (py ''result'', py ''Error: '' @ py ''Beaufort cipher requires an alphabetic keyword, got ''
            @ [39] @ py ''k1'' @ [39])]"
proof -
  have ne: "py ''abc'' \<noteq> []" by (simp add: py_def)
  have d: "dispatch latin1_tables (py ''abc'') (py ''abcdefghijklmnopqrstuvwxy'' @ [223])
              (normalize_method latin1_tables (py ''simple_substitution''))
            = Inl (ValueError maketrans_message)"
    by code_simp
  have m: "exn_message latin1_tables (ValueError maketrans_message)
           = py ''the first two maketrans arguments must have equal length''"
    by (simp add: exn_message_def maketrans_message_def)
  have g: "py ''abcdefghijklmnopqrstuvwxy'' @ [223]
           \<in> set (generate_substitution_alphabet latin1_tables
                   (parse_keywords latin1_tables (py ''abcdefghijklmnopqrstuvwxy'' @ [223])))"
    by code_simp
  have b: "dispatch latin1_tables (py ''abc'') (py ''k1'') (normalize_method latin1_tables (py ''beaufort''))
           = Inl (CipherError (py ''Beaufort cipher requires an alphabetic keyword, got ''
                               @ [39] @ py ''k1'' @ [39]))"
    by code_simp
  have i0: "saved (initial_state {}) = []" "draws (initial_state {}) = 0"
    by (simp_all add: initial_state_def)
  note t = unexpected_fault_recorded_success
      [of "py ''abc''" latin1_tables "py ''abcdefghijklmnopqrstuvwxy'' @ [223]"
          "py ''simple_substitution''" "ValueError maketrans_message" "\<lambda>_. False"
          "initial_state {}" "py ''abcdefghijklmnopqrstuvwxy'' @ [223]" "[]"]
  have w1: "result_record_of latin1_tables (py ''abc'') (py ''simple_substitution'')
       (py ''abcdefghijklmnopqrstuvwxy'' @ [223])
     = [(py ''keyword'', py ''abcdefghijklmnopqrstuvwxy'' @ [223]),
        (py ''cipher'', py ''simple_substitution''),
        (py ''status'', py ''Success''),
        (py ''result'', py ''Unexpected error: ''
            @ py ''the first two maketrans arguments must have equal length'')]"
    using t ne d unfolding m by blast
  have w2: "result_record_of latin1_tables (py ''abc'') (py ''simple_substitution'')
       (py ''abcdefghijklmnopqrstuvwxy'' @ [223])
     \<in> set (test_all_cipher_combinations latin1_tables (py ''abc'')
              (py ''abcdefghijklmnopqrstuvwxy'' @ [223]))"
    using t ne g by blast
  have w3: "saved (run_attempt latin1_tables (\<lambda>_. False) (py ''abc'')
        (py ''abcdefghijklmnopqrstuvwxy'' @ [223]) (py ''simple_substitution'') (initial_state {}))
     = saved (initial_state {}) @ [(py ''abcdefghijklmnopqrstuvwxy'' @ [223],
         py ''Unexpected error: '' @ py ''the first two maketrans arguments must have equal length'',
         False, py ''simple_substitution'')]"
    using t ne d unfolding m by blast
  have w4: "result_record_of latin1_tables (py ''abc'') (py ''beaufort'') (py ''k1'')
     = [(py ''keyword'', py ''k1''), (py ''cipher'', py ''beaufort''), (py ''status'', py ''Error''),
        (py ''result'', py ''Error: '' @ py ''Beaufort cipher requires an alphabetic keyword, got ''
            @ [39] @ py ''k1'' @ [39])]"
    using unexpected_fault_recorded_success
      [of "py ''abc''" latin1_tables "py ''k1''" "py ''beaufort''" "ValueError []" "\<lambda>_. False"
          "initial_state {}" "[]" "py ''Beaufort cipher requires an alphabetic keyword, got '' @ [39] @ py ''k1'' @ [39]"]
      ne b by blast
  show ?thesis using w1 w2 w3 w4 unfolding i0 by simp
qed

section \<open>Playfair against its reference decryption\<close>

lemma remdups_snoc: "remdups (ys @ [x]) = remdups (filter (\<lambda>c. c \<noteq> x) ys) @ [x]"
  by (induction ys) auto

lemma first_occurrences_Cons:
  "first_occurrences (x # ys) = x # first_occurrences (filter (\<lambda>c. c \<noteq> x) ys)"
  by (simp add: first_occurrences_def remdups_snoc rev_filter)

lemma first_occurrences_Nil [simp]: "first_occurrences [] = []"
  by (simp add: first_occurrences_def)

lemma set_first_occurrences [simp]: "set (first_occurrences xs) = set xs"
  by (simp add: first_occurrences_def)

lemma distinct_first_occurrences [simp]: "distinct (first_occurrences xs)"
  by (simp add: first_occurrences_def)

lemma fold_add_keyword_char:
  "fold add_keyword_char xs (g, set g) =
     (g @ first_occurrences (filter (\<lambda>c. c \<in> set playfair_alphabet \<and> c \<notin> set g) xs),
      set (g @ first_occurrences (filter (\<lambda>c. c \<in> set playfair_alphabet \<and> c \<notin> set g) xs)))"
proof (induction xs arbitrary: g)
  case Nil
  show ?case by simp
next
  case (Cons x xs)
  show ?case
  proof (cases "x \<notin> set g \<and> x \<in> set playfair_alphabet")
    case True
    have f: "filter (\<lambda>c. c \<noteq> x) (filter (\<lambda>c. c \<in> set playfair_alphabet \<and> c \<notin> set g) xs)
             = filter (\<lambda>c. c \<in> set playfair_alphabet \<and> c \<notin> set (g @ [x])) xs"
      by (auto intro: filter_cong)
    have e: "first_occurrences (filter (\<lambda>c. c \<in> set playfair_alphabet \<and> c \<notin> set g) (x # xs))
             = x # first_occurrences (filter (\<lambda>c. c \<in> set playfair_alphabet \<and> c \<notin> set (g @ [x])) xs)"
    proof -
      have "filter (\<lambda>c. c \<in> set playfair_alphabet \<and> c \<notin> set g) (x # xs)
            = x # filter (\<lambda>c. c \<in> set playfair_alphabet \<and> c \<notin> set g) xs"
        using True by simp
      then show ?thesis by (simp only: first_occurrences_Cons f)
    qed
    have step: "fold add_keyword_char (x # xs) (g, set g)
                = fold add_keyword_char xs (g @ [x], set (g @ [x]))"
      using True by (simp add: add_keyword_char_def)
    show ?thesis unfolding step e Cons.IH [of "g @ [x]"] by simp
  next
    case False
    have "fold add_keyword_char (x # xs) (g, set g) = fold add_keyword_char xs (g, set g)"
      using False by (auto simp: add_keyword_char_def)
    also note Cons.IH [of g]
    finally show ?thesis using False by auto
  qed
qed

lemma fold_add_alphabet_char:
  "fold (add_alphabet_char seen) al g = g @ filter (\<lambda>c. c \<notin> seen) al"
  by (induction al arbitrary: g) (auto simp: add_alphabet_char_def)

lemma grid_chars_of_eq:
  "grid_chars_of ck =
     (let ks = first_occurrences (filter (\<lambda>c. c \<in> set playfair_alphabet) ck)
      in ks @ filter (\<lambda>c. c \<notin> set ks) playfair_alphabet)"
  using fold_add_keyword_char [of ck "[]"]
  by (simp add: grid_chars_of_def fold_add_alphabet_char Let_def)

lemma index_of_None: "(index_of xs v = None) = (v \<notin> set xs)"
  by (induction xs) auto

lemma index_of_Some_iff: "index_of xs v = Some i \<Longrightarrow> v \<in> set xs"
  using index_of_None [of xs v] by auto

lemma fold_pos_enumerate:
  "distinct xs \<Longrightarrow>
   fold (\<lambda>(i, c) m. m(c \<mapsto> (i div 5, i mod 5))) (enumerate n xs) m0 c =
     (case index_of xs c of None \<Rightarrow> m0 c | Some i \<Rightarrow> Some ((n + i) div 5, (n + i) mod 5))"
proof (induction xs arbitrary: n m0)
  case Nil
  show ?case by simp
next
  case (Cons x xs)
  then show ?case
    by (auto split: option.splits simp: index_of_None dest: index_of_Some_iff)
qed

lemma char_to_pos_of_eq:
  "distinct g \<Longrightarrow>
   char_to_pos_of g c = map_option (\<lambda>i. (i div 5, i mod 5)) (index_of g c)"
  using fold_pos_enumerate [of g 0 Map.empty c]
  by (simp add: char_to_pos_of_def split: option.splits)

lemma left_wrap: "nat ((int col - 1) mod 5) = (col + 4) mod 5"
proof -
  have "(int col - 1) mod 5 = (int col + 4) mod 5"
    by presburger
  then have "nat ((int col - 1) mod 5) = nat (int ((col + 4) mod 5))"
    by (simp add: zmod_int)
  then show ?thesis by simp
qed

lemma decrypt_pair_eq:
  "distinct g \<Longrightarrow> decrypt_pair g (char_to_pos_of g) a b = spec_digraph g a b"
  by (simp add: decrypt_pair_def spec_digraph_def char_to_pos_of_eq left_wrap Let_def
      split: option.splits)

lemma decrypt_pairs_eq:
  "distinct g \<Longrightarrow> decrypt_pairs g (char_to_pos_of g) cs = spec_digraphs g cs"
  by (induction g cs rule: spec_digraphs.induct) (simp_all add: decrypt_pair_eq)

lemma grid_is_spec_grid:
  "grid_chars_of (replace_char 74 73 (str_upper U (join_split U keyword))) = spec_grid U keyword"
  by (simp add: grid_chars_of_eq spec_grid_def spec_keyword_letters_def)

lemma distinct_playfair_alphabet: "distinct playfair_alphabet"
  by (simp add: playfair_alphabet_def py_def)

lemma distinct_spec_grid: "distinct (spec_grid U keyword)"
  by (auto simp: spec_grid_def Let_def distinct_playfair_alphabet)

lemma length_spec_grid: "length (spec_grid U keyword) = 25"
proof -
  define ks where "ks = first_occurrences (spec_keyword_letters U keyword)"
  have sub: "set ks \<subseteq> set playfair_alphabet"
    by (auto simp: ks_def spec_keyword_letters_def)
  have d: "distinct ks" by (simp add: ks_def)
  have "set (spec_grid U keyword) = set playfair_alphabet"
    using sub by (auto simp: spec_grid_def Let_def ks_def [symmetric])
  then have "card (set (spec_grid U keyword)) = card (set playfair_alphabet)" by simp
  then have "length (spec_grid U keyword) = length playfair_alphabet"
    using distinct_spec_grid [of U keyword] distinct_playfair_alphabet
    by (simp add: distinct_card)
  then show ?thesis by (simp add: playfair_alphabet_def py_def)
qed

lemma playfair_refines_spec:
  "playfair_cipher U text keyword =
     (if bad_alpha_keyword U keyword
      then Inl (CipherError (py ''Playfair cipher requires an alphabetic keyword, got ''
                             @ [39] @ keyword @ [39]))
      else playfair_spec U text keyword)"
  by (simp add: playfair_cipher_def playfair_spec_def Let_def grid_is_spec_grid
      decrypt_pairs_eq distinct_spec_grid odd_iff_mod_2_eq_one)

text \<open>
  C7 (as amended). For a keyword that passes the alphabetic check, \<open>playfair_cipher\<close>
  equals the reference decryption: the 5x5 grid built from the deduplicated keyword
  letters (J folded to I) followed by the remaining alphabet, 25 distinct letters; the
  three digraph rules (same row: one column left with wrap; same column: one row up with
  wrap; otherwise the columns swapped); a digraph with a letter outside the grid kept as
  it is; and then it fails exactly when the cleaned text has odd length. For an empty or
  non-alphabetic keyword it fails whatever the text.
\<close>

theorem playfair_matches_reference:
  "playfair_cipher U text keyword =
     (if bad_alpha_keyword U keyword
      then Inl (CipherError (py ''Playfair cipher requires an alphabetic keyword, got ''
                             @ [39] @ keyword @ [39]))
      else playfair_spec U text keyword)
   \<and> (\<not> bad_alpha_keyword U keyword \<longrightarrow>
        (\<exists>e. playfair_cipher U text keyword = Inl e)
        = odd (length (playfair_clean_text U text)))
   \<and> distinct (spec_grid U keyword) \<and> length (spec_grid U keyword) = 25
   \<and> set (spec_grid U keyword) = set playfair_alphabet"
proof (intro conjI impI)
  show "playfair_cipher U text keyword =
     (if bad_alpha_keyword U keyword
      then Inl (CipherError (py ''Playfair cipher requires an alphabetic keyword, got ''
                             @ [39] @ keyword @ [39]))
      else playfair_spec U text keyword)"
    by (rule playfair_refines_spec)
  show "distinct (spec_grid U keyword)" by (rule distinct_spec_grid)
  show "length (spec_grid U keyword) = 25" by (rule length_spec_grid)
  show "set (spec_grid U keyword) = set playfair_alphabet"
    by (auto simp: spec_grid_def Let_def spec_keyword_letters_def)
next
  assume "\<not> bad_alpha_keyword U keyword"
  then have "playfair_cipher U text keyword = playfair_spec U text keyword"
    by (simp add: playfair_refines_spec)
  then show "(\<exists>e. playfair_cipher U text keyword = Inl e)
        = odd (length (playfair_clean_text U text))"
    by (simp add: playfair_spec_def Let_def)
qed

theorem playfair_matches_reference_witness:
  "playfair_cipher latin1_tables (py ''H-I'') (py ''KEY'') = Inr (py ''CO'')
   \<and> playfair_cipher latin1_tables [201, 65] (py ''KEY'') = Inr [201, 65]
   \<and> (\<exists>e. playfair_cipher latin1_tables (py ''H-I-K'') (py ''KEY'') = Inl e)
   \<and> spec_grid latin1_tables (py ''KEY'') = py ''KEYABCDFGHILMNOPQRSTUVWXZ''"
proof -
  have k: "\<not> bad_alpha_keyword latin1_tables (py ''KEY'')" by code_simp
  have v: "playfair_spec latin1_tables (py ''H-I'') (py ''KEY'') = Inr (py ''CO'')" by code_simp
  have w: "playfair_spec latin1_tables [201, 65] (py ''KEY'') = Inr [201, 65]" by code_simp
  have g: "spec_grid latin1_tables (py ''KEY'') = py ''KEYABCDFGHILMNOPQRSTUVWXZ''" by code_simp
  have o: "odd (length (playfair_clean_text latin1_tables (py ''H-I-K'')))"
    by code_simp
  have a: "playfair_cipher latin1_tables (py ''H-I'') (py ''KEY'')
           = playfair_spec latin1_tables (py ''H-I'') (py ''KEY'')"
    using playfair_matches_reference [of latin1_tables "py ''H-I''" "py ''KEY''", THEN conjunct1] k
    by (simp only: if_False)
  have c: "playfair_cipher latin1_tables [201, 65] (py ''KEY'')
           = playfair_spec latin1_tables [201, 65] (py ''KEY'')"
    using playfair_matches_reference [of latin1_tables "[201, 65]" "py ''KEY''", THEN conjunct1] k
    by (simp only: if_False)
  have b: "\<exists>e. playfair_cipher latin1_tables (py ''H-I-K'') (py ''KEY'') = Inl e"
    using playfair_matches_reference [of latin1_tables "py ''H-I-K''" "py ''KEY''"] k o
    by blast
  show ?thesis using a v b c w g by simp
qed

text \<open>
  C7 as stated fails: with the empty keyword the transform fails although the cleaned
  text \<open>AB\<close> has even length.
\<close>

theorem playfair_failure_counterexample:
  "(\<exists>e. playfair_cipher latin1_tables (py ''AB'') [] = Inl e)
   \<and> \<not> odd (length (playfair_clean_text latin1_tables (py ''AB'')))"
proof -
  have "bad_alpha_keyword latin1_tables []" by (simp add: bad_alpha_keyword_def)
  then have "\<exists>e. playfair_cipher latin1_tables (py ''AB'') [] = Inl e"
    by (simp add: playfair_cipher_def)
  moreover have "length (playfair_clean_text latin1_tables (py ''AB'')) = 2"
    by code_simp
  ultimately show ?thesis by simp
qed

section \<open>Non-letters under the letter-by-letter ciphers\<close>

lemma kept_in_place_map:
  "(\<And>c. \<not> letter c \<Longrightarrow> f c = c) \<Longrightarrow> kept_in_place letter text (map f text)"
  by (simp add: kept_in_place_def list_all2_map2 list_all2_same)

lemma kept_in_place_mono:
  "(\<And>c. letter c \<Longrightarrow> letter' c) \<Longrightarrow> kept_in_place letter text out \<Longrightarrow>
   kept_in_place letter' text out"
  unfolding kept_in_place_def by (erule list_all2_mono) blast

lemma ring_letter_alpha: "ring_letter c \<Longrightarrow> is_alpha U c"
  by (auto simp: ring_letter_def is_alpha_def is_lower_def is_upper_def)

lemma is_lower_mod [simp]: "is_lower (nat (x mod 26 + 97))"
proof -
  have "0 \<le> x mod 26" "x mod 26 < 26" by simp_all
  then show ?thesis by (simp add: is_lower_def) linarith
qed

lemma is_upper_mod [simp]: "is_upper (nat (x mod 26 + 65))"
proof -
  have "0 \<le> x mod 26" "x mod 26 < 26" by simp_all
  then show ?thesis by (simp add: is_upper_def) linarith
qed

lemma caesar_fixed: "kept_in_place ring_letter text (caesar_cipher text shift)"
  unfolding caesar_cipher_def
  by (rule kept_in_place_map) (simp add: caesar_char_def ring_letter_def)

lemma atbash_fixed: "kept_in_place ring_letter text (atbash_cipher text)"
  unfolding atbash_cipher_def
  by (rule kept_in_place_map) (simp add: atbash_char_def ring_letter_def)

lemma affine_fixed: "affine_cipher U text kw = Inr out \<Longrightarrow> kept_in_place ring_letter text out"
  by (auto intro!: kept_in_place_map simp: affine_cipher_def affine_char_def ring_letter_def
      split: sum.splits)

lemma vigenere_loop_fixed: "kept_in_place ring_letter text (vigenere_loop kas ki text)"
  by (induction "text" arbitrary: ki) (auto simp: kept_in_place_def ring_letter_def)

lemma beaufort_loop_fixed: "kept_in_place ring_letter text (beaufort_loop kas ki text)"
  by (induction "text" arbitrary: ki) (auto simp: kept_in_place_def ring_letter_def)

lemma vigenere_loop_filter:
  "filter ring_letter (vigenere_loop kas ki text) = vigenere_loop kas ki (filter ring_letter text)"
proof (induction "text" arbitrary: ki)
  case Nil
  show ?case by simp
next
  case (Cons c cs)
  show ?case
  proof (cases "ring_letter c")
    case True
    then show ?thesis using Cons by (auto simp: ring_letter_def)
  next
    case False
    then show ?thesis using Cons by (simp add: ring_letter_def)
  qed
qed

lemma beaufort_loop_filter:
  "filter ring_letter (beaufort_loop kas ki text) = beaufort_loop kas ki (filter ring_letter text)"
proof (induction "text" arbitrary: ki)
  case Nil
  show ?case by simp
next
  case (Cons c cs)
  show ?case
  proof (cases "ring_letter c")
    case True
    then show ?thesis using Cons by (auto simp: ring_letter_def)
  next
    case False
    then show ?thesis using Cons by (simp add: ring_letter_def)
  qed
qed

lemma has_letter_filter: "has_letter (filter ring_letter text) = has_letter text"
  by (induction "text") (auto simp: has_letter_def ring_letter_def)

lemma vigenere_fixed:
  assumes "vigenere_cipher U text kw = Inr out"
  shows "kept_in_place ring_letter text out
         \<and> vigenere_cipher U (filter ring_letter text) kw = Inr (filter ring_letter out)"
  using assms
  by (auto simp: vigenere_cipher_def vigenere_loop_fixed vigenere_loop_filter has_letter_filter
      split: if_splits)

lemma beaufort_fixed:
  assumes "beaufort_cipher U text kw = Inr out"
  shows "kept_in_place ring_letter text out
         \<and> beaufort_cipher U (filter ring_letter text) kw = Inr (filter ring_letter out)"
  using assms
  by (auto simp: beaufort_cipher_def beaufort_loop_fixed beaufort_loop_filter has_letter_filter
      split: if_splits)

lemma fold_upd_Some:
  "fold (\<lambda>(x, y) m. m(x \<mapsto> y)) ps m0 c = Some d \<Longrightarrow> c \<in> fst ` set ps \<or> m0 c = Some d"
  by (induction ps arbitrary: m0) (fastforce split: if_splits)+

lemma maketrans_dom: "maketrans xs ys = Inr t \<Longrightarrow> t c = Some d \<Longrightarrow> c \<in> set xs"
  using fold_upd_Some [of "zip xs ys" Map.empty c d]
  by (auto simp: maketrans_def dest: set_zip_leftD split: if_splits)

lemma fold_upd_range:
  "fold (\<lambda>(x, y) m. m(x \<mapsto> y)) ps m0 c = Some d \<Longrightarrow> d \<in> snd ` set ps \<or> m0 c = Some d"
  by (induction ps arbitrary: m0) (fastforce split: if_splits)+

lemma maketrans_ran: "maketrans xs ys = Inr t \<Longrightarrow> t c = Some d \<Longrightarrow> d \<in> set ys"
  using fold_upd_range [of "zip xs ys" Map.empty c d]
  by (auto simp: maketrans_def dest: set_zip_rightD split: if_splits)

lemma substitution_fixed:
  assumes a: "simple_substitution_cipher U text alphabet = Inr out"
  shows "kept_in_place (\<lambda>c. c \<in> set (str_lower U alphabet) \<union> set (str_upper U alphabet))
           text out"
proof -
  from a obtain lo up where lo: "maketrans (str_lower U alphabet) ascii_lowercase = Inr lo"
    and up: "maketrans (str_upper U alphabet) ascii_uppercase = Inr up"
    and out: "out = translate up (translate lo text)"
    by (auto simp: simple_substitution_cipher_def split: if_splits sum.splits)
  define g where "g = (\<lambda>c. case lo c of None \<Rightarrow> c | Some d \<Rightarrow> d)"
  define f where "f = (\<lambda>c. case up c of None \<Rightarrow> c | Some d \<Rightarrow> d)"
  have gfix: "g c = c" if "c \<notin> set (str_lower U alphabet)" for c
    using maketrans_dom [OF lo, of c] that by (cases "lo c") (auto simp: g_def)
  have ffix: "f c = c" if "c \<notin> set (str_upper U alphabet)" for c
    using maketrans_dom [OF up, of c] that by (cases "up c") (auto simp: f_def)
  have "out = map (\<lambda>c. f (g c)) text"
    by (simp add: out translate_def f_def g_def)
  moreover have "kept_in_place (\<lambda>c. c \<in> set (str_lower U alphabet) \<union> set (str_upper U alphabet))
                   text (map (\<lambda>c. f (g c)) text)"
    by (rule kept_in_place_map) (simp add: ffix gfix)
  ultimately show ?thesis by simp
qed

lemma substitution_fixed_ascii:
  assumes a: "simple_substitution_cipher U text alphabet = Inr out" and b: "ascii_str alphabet"
  shows "kept_in_place ring_letter text out"
proof -
  have al: "list_all (is_alpha U) alphabet"
    using a by (auto simp: simple_substitution_cipher_def str_isalpha_def split: if_splits)
  have r: "ring_letter c" if "c \<in> set alphabet" for c
    using al b that by (auto simp: list_all_iff ascii_str_def is_alpha_def ring_letter_def)
  have "ring_letter c"
    if "c \<in> set (str_lower U alphabet) \<union> set (str_upper U alphabet)" for c
    using that b r
    by (auto simp: str_lower_def str_upper_def ring_letter_def lower_char_def upper_char_def
        is_lower_def is_upper_def)
  then show ?thesis
    using substitution_fixed [OF a] by (rule kept_in_place_mono)
qed

lemma decrypt_pair_length: "length (decrypt_pair g m a b) = 2"
  by (simp add: decrypt_pair_def split: option.splits prod.splits)

lemma decrypt_pairs_length: "even (length xs) \<Longrightarrow> length (decrypt_pairs g m xs) = length xs"
  by (induction g m xs rule: decrypt_pairs.induct) (simp_all add: decrypt_pair_length)

lemma playfair_length:
  "playfair_cipher U text kw = Inr out \<Longrightarrow> length out = length (playfair_clean_text U text)"
  by (auto simp: playfair_cipher_def Let_def decrypt_pairs_length split: if_splits)

lemma playfair_example:
  "playfair_cipher latin1_tables (py ''b-m'') (py ''KEY'') = Inr (py ''YO'')"
proof -
  have k: "\<not> bad_alpha_keyword latin1_tables (py ''KEY'')" by code_simp
  have v: "playfair_spec latin1_tables (py ''b-m'') (py ''KEY'') = Inr (py ''YO'')" by code_simp
  show ?thesis using k v by (simp add: playfair_refines_spec)
qed

text \<open>
  C2 (as amended). Every transform is a function of its text and key alone. For Caesar,
  Rot13, Atbash, Vigenere, Beaufort and Affine, whenever the transform returns, the
  output has the length of the input and every character that is not a letter of one of
  the two 26-symbol rings, so every character that is not alphabetic, stands unchanged
  at the same index; for Vigenere and Beaufort these characters do not advance the
  keystream: deleting them from the input deletes them from the output and changes no
  other character. SimpleSubstitution keeps in place every character that is not a
  letter of its alphabet in lower or upper case, so for an ASCII alphabet every character
  outside the two rings. The other transforms do not keep non-letters in place:
  ColumnarTransposition turns \<open>a1b\<close> into \<open>ab1\<close> under the key \<open>ab\<close>, RailFence turns
  \<open>ab1\<close> into \<open>a1b\<close> on two rails, and the output of Playfair has the length of the
  cleaned text, from which the non-letters are gone (\<open>b-m\<close> is cleaned to \<open>BM\<close>).
\<close>

theorem non_letters_in_place:
  "kept_in_place ring_letter text (caesar_cipher text shift)
   \<and> kept_in_place ring_letter text (rot13_cipher text)
   \<and> kept_in_place ring_letter text (atbash_cipher text)
   \<and> (vigenere_cipher U text kw = Inr out \<longrightarrow>
        kept_in_place ring_letter text out
        \<and> vigenere_cipher U (filter ring_letter text) kw = Inr (filter ring_letter out))
   \<and> (beaufort_cipher U text kw = Inr out \<longrightarrow>
        kept_in_place ring_letter text out
        \<and> beaufort_cipher U (filter ring_letter text) kw = Inr (filter ring_letter out))
   \<and> (affine_cipher U text kw = Inr out \<longrightarrow> kept_in_place ring_letter text out)
   \<and> (simple_substitution_cipher U text kw = Inr out \<longrightarrow>
        kept_in_place (\<lambda>c. c \<in> set (str_lower U kw) \<union> set (str_upper U kw)) text out
        \<and> (ascii_str kw \<longrightarrow> kept_in_place ring_letter text out))
   \<and> (kept_in_place ring_letter text out \<longrightarrow> kept_in_place (is_alpha U) text out)
   \<and> (playfair_cipher U text kw = Inr out \<longrightarrow> length out = length (playfair_clean_text U text))
   \<and> playfair_clean_text latin1_tables (py ''b-m'') = py ''BM''
   \<and> columnar_transposition_cipher latin1_tables (py ''a1b'') (py ''ab'') = Inr (py ''ab1'')
   \<and> rail_fence_cipher latin1_tables (py ''ab1'') (py ''2'') = Inr (py ''a1b'')"
proof (intro conjI impI)
  show "kept_in_place ring_letter text (caesar_cipher text shift)" by (rule caesar_fixed)
  show "kept_in_place ring_letter text (rot13_cipher text)" by (simp add: rot13_cipher_def caesar_fixed)
  show "kept_in_place ring_letter text (atbash_cipher text)" by (rule atbash_fixed)
  show "playfair_clean_text latin1_tables (py ''b-m'') = py ''BM''" by code_simp
  show "columnar_transposition_cipher latin1_tables (py ''a1b'') (py ''ab'') = Inr (py ''ab1'')"
    by code_simp
  show "rail_fence_cipher latin1_tables (py ''ab1'') (py ''2'') = Inr (py ''a1b'')"
    by code_simp
next
  assume "vigenere_cipher U text kw = Inr out"
  then show "kept_in_place ring_letter text out"
    and "vigenere_cipher U (filter ring_letter text) kw = Inr (filter ring_letter out)"
    by (simp_all add: vigenere_fixed)
next
  assume "beaufort_cipher U text kw = Inr out"
  then show "kept_in_place ring_letter text out"
    and "beaufort_cipher U (filter ring_letter text) kw = Inr (filter ring_letter out)"
    by (simp_all add: beaufort_fixed)
next
  assume "affine_cipher U text kw = Inr out"
  then show "kept_in_place ring_letter text out" by (rule affine_fixed)
next
  assume a: "simple_substitution_cipher U text kw = Inr out"
  then show "kept_in_place (\<lambda>c. c \<in> set (str_lower U kw) \<union> set (str_upper U kw)) text out"
    by (rule substitution_fixed)
  assume "ascii_str kw"
  with a show "kept_in_place ring_letter text out" by (rule substitution_fixed_ascii)
next
  assume "kept_in_place ring_letter text out"
  then show "kept_in_place (is_alpha U) text out"
    by (rule kept_in_place_mono [rotated]) (rule ring_letter_alpha)
next
  assume "playfair_cipher U text kw = Inr out"
  then show "length out = length (playfair_clean_text U text)" by (rule playfair_length)
qed

theorem non_letters_in_place_witness:
  "kept_in_place ring_letter (py ''d-f g'') (py ''a-b e'')
   \<and> vigenere_cipher latin1_tables (py ''dfg'') (py ''dec'') = Inr (py ''abe'')
   \<and> kept_in_place ring_letter (py ''d-f g'') (py ''a-z w'')
   \<and> beaufort_cipher latin1_tables (py ''dfg'') (py ''dec'') = Inr (py ''azw'')
   \<and> kept_in_place ring_letter (py ''d-f g'') (py ''z-p k'')
   \<and> kept_in_place ring_letter (py ''d-f g'') (py ''w-u t'')
   \<and> kept_in_place (is_alpha latin1_tables) (py ''d-f g'') (py ''w-u t'')
   \<and> kept_in_place (\<lambda>c. c \<in> set (str_lower latin1_tables (py ''abcdefghijklmnopqrstuvwxy'' @ [233]))
                           \<union> set (str_upper latin1_tables (py ''abcdefghijklmnopqrstuvwxy'' @ [233])))
        ([233] @ py ''1'') (py ''z1'')
   \<and> length (py ''YO'') = length (playfair_clean_text latin1_tables (py ''b-m''))"
proof -
  have v: "vigenere_cipher latin1_tables (py ''d-f g'') (py ''dec'') = Inr (py ''a-b e'')"
    by code_simp
  have b: "beaufort_cipher latin1_tables (py ''d-f g'') (py ''dec'') = Inr (py ''a-z w'')"
    by code_simp
  have a: "affine_cipher latin1_tables (py ''d-f g'') (py ''5,8'') = Inr (py ''z-p k'')"
    by code_simp
  have s: "simple_substitution_cipher latin1_tables (py ''d-f g'') (py ''zyxwvutsrqponmlkjihgfedcba'')
           = Inr (py ''w-u t'')"
    by code_simp
  have e: "simple_substitution_cipher latin1_tables ([233] @ py ''1'')
             (py ''abcdefghijklmnopqrstuvwxy'' @ [233]) = Inr (py ''z1'')"
    by code_simp
  have p: "playfair_cipher latin1_tables (py ''b-m'') (py ''KEY'') = Inr (py ''YO'')"
    by (rule playfair_example)
  have k: "ascii_str (py ''zyxwvutsrqponmlkjihgfedcba'')" by code_simp
  have f: "filter ring_letter (py ''d-f g'') = py ''dfg''"
    "filter ring_letter (py ''a-b e'') = py ''abe''"
    "filter ring_letter (py ''a-z w'') = py ''azw''"
    by code_simp+
  have 1: "kept_in_place ring_letter (py ''d-f g'') (py ''a-b e'')
           \<and> vigenere_cipher latin1_tables (filter ring_letter (py ''d-f g'')) (py ''dec'')
             = Inr (filter ring_letter (py ''a-b e''))"
    using non_letters_in_place [of "py ''d-f g''" 3 latin1_tables "py ''dec''" "py ''a-b e''"] v
    by blast
  have 2: "kept_in_place ring_letter (py ''d-f g'') (py ''a-z w'')
           \<and> beaufort_cipher latin1_tables (filter ring_letter (py ''d-f g'')) (py ''dec'')
             = Inr (filter ring_letter (py ''a-z w''))"
    using non_letters_in_place [of "py ''d-f g''" 3 latin1_tables "py ''dec''" "py ''a-z w''"] b
    by blast
  have 3: "kept_in_place ring_letter (py ''d-f g'') (py ''z-p k'')"
    using non_letters_in_place [of "py ''d-f g''" 3 latin1_tables "py ''5,8''" "py ''z-p k''"] a
    by blast
  have 4: "kept_in_place ring_letter (py ''d-f g'') (py ''w-u t'')"
    using non_letters_in_place [of "py ''d-f g''" 3 latin1_tables
        "py ''zyxwvutsrqponmlkjihgfedcba''" "py ''w-u t''"] s k
    by blast
  have 5: "kept_in_place (is_alpha latin1_tables) (py ''d-f g'') (py ''w-u t'')"
    using non_letters_in_place [of "py ''d-f g''" 3 latin1_tables
        "py ''zyxwvutsrqponmlkjihgfedcba''" "py ''w-u t''"] 4
    by blast
  have 6: "kept_in_place (\<lambda>c. c \<in> set (str_lower latin1_tables (py ''abcdefghijklmnopqrstuvwxy'' @ [233]))
                           \<union> set (str_upper latin1_tables (py ''abcdefghijklmnopqrstuvwxy'' @ [233])))
        ([233] @ py ''1'') (py ''z1'')"
    using non_letters_in_place [of "[233] @ py ''1''" 3 latin1_tables
        "py ''abcdefghijklmnopqrstuvwxy'' @ [233]" "py ''z1''"] e
    by blast
  have 7: "length (py ''YO'') = length (playfair_clean_text latin1_tables (py ''b-m''))"
    using non_letters_in_place [of "py ''b-m''" 3 latin1_tables "py ''KEY''" "py ''YO''"] p
    by blast
  show ?thesis
    using 1 2 3 4 5 6 7 unfolding f by blast
qed

text \<open>
  C2 as stated fails for the transposition ciphers: \<open>reverse_cipher\<close> moves the digit of
  \<open>a1\<close> from index 1 to index 0.
\<close>

theorem non_letters_counterexample:
  "reverse_cipher (py ''a1'') = py ''1a''
   \<and> \<not> kept_in_place ring_letter (py ''a1'') (reverse_cipher (py ''a1''))
   \<and> \<not> kept_in_place (is_alpha latin1_tables) (py ''a1'') (reverse_cipher (py ''a1''))"
  by code_simp

end
